theory Spec2Isabelle
  imports Complex_Main "HOL-Library.Multiset"
begin

section \<open>Data model and configuration\<close>

text \<open>
  The lexical decision task of \<^verbatim>\<open>web/experiment.js\<close>. Lexicality is one of the two strings
  \<^verbatim>\<open>"word"\<close> and \<^verbatim>\<open>"pseudoword"\<close>. A practice item is \<^verbatim>\<open>{stimulus, lexicality}\<close>; a trial adds
  \<^verbatim>\<open>duration\<close> (milliseconds; \<open>None\<close> is JavaScript's \<^verbatim>\<open>undefined\<close>, which is what reading
  past the end of \<^verbatim>\<open>CONFIG.durations\<close> gives); the main trials also get a \<^verbatim>\<open>trialNumber\<close>.
\<close>

datatype lexicality = Word | Pseudoword

record stimulus_item =
  stimulus :: string
  lexicality :: lexicality

record trial_info = stimulus_item +
  duration :: "int option"

record trial_spec = trial_info +
  trialNumber :: nat

record config =
  words :: "string list"
  pseudowords :: "string list"
  practiceItems :: "stimulus_item list"
  durations :: "int list"
  fixationDuration :: int
  maskDuration :: int
  responseTimeout :: int
  feedbackDuration :: int
  nReps :: int
  maxSameLexInRow :: int
  keyWord :: string
  keyNonword :: string

definition CONFIG :: config where
  "CONFIG = \<lparr>
     words = [''river'', ''window'', ''sugar'', ''forest'', ''jacket'',
              ''island'', ''kitten'', ''cheese'', ''hammer'', ''candle''],
     pseudowords = [''tible'', ''hause'', ''gardon'', ''flomer'', ''desern'',
                    ''strean'', ''perlun'', ''morle'', ''stome'', ''waper''],
     practiceItems = [
       \<lparr>stimulus = ''finger'', lexicality = Word\<rparr>,
       \<lparr>stimulus = ''church'', lexicality = Word\<rparr>,
       \<lparr>stimulus = ''carrot'', lexicality = Word\<rparr>,
       \<lparr>stimulus = ''hamen'', lexicality = Pseudoword\<rparr>,
       \<lparr>stimulus = ''pamer'', lexicality = Pseudoword\<rparr>,
       \<lparr>stimulus = ''waten'', lexicality = Pseudoword\<rparr>],
     durations = [40, 200],
     fixationDuration = 500,
     maskDuration = 150,
     responseTimeout = 2000,
     feedbackDuration = 500,
     nReps = 1,
     maxSameLexInRow = 3,
     keyWord = ''f'',
     keyNonword = ''j''\<rparr>"


section \<open>Phase scheduler: showForDuration\<close>

text \<open>
  \<^verbatim>\<open>showForDuration(html, durationMs)\<close> of \<^verbatim>\<open>web/experiment.js\<close> keeps a local
  \<^verbatim>\<open>startTime\<close> (initially \<^verbatim>\<open>null\<close>) and re-arms \<^verbatim>\<open>requestAnimationFrame(frame)\<close> until
  \<^verbatim>\<open>timestamp - startTime >= durationMs\<close>. The display refreshes are the list of the
  timestamps passed to \<^verbatim>\<open>frame\<close>, in order; the result is the timestamp the promise is
  resolved with, or \<open>None\<close> while the promise is still pending after all the listed
  refreshes. Timestamps and durations are exact rationals (milliseconds).
\<close>

fun frame :: "rat \<Rightarrow> rat option \<Rightarrow> rat list \<Rightarrow> rat option" where
  "frame durationMs startTime [] = None"
| "frame durationMs startTime (timestamp # later) =
     (let startTime' = (case startTime of None \<Rightarrow> timestamp | Some s \<Rightarrow> s)
      in if timestamp - startTime' \<ge> durationMs then Some timestamp
         else frame durationMs (Some startTime') later)"

definition showForDuration :: "rat \<Rightarrow> rat list \<Rightarrow> rat option" where
  "showForDuration durationMs refreshes = frame durationMs None refreshes"


section \<open>Trial generation\<close>

text \<open>
  \<^verbatim>\<open>Math.random()\<close> is the environment: \<open>random k\<close> is the value of its \<open>k\<close>-th call, a
  number in \<open>[0, 1)\<close>, and every function that draws returns the number of calls made so
  far together with its result.
\<close>

type_synonym random_source = "nat \<Rightarrow> rat"

definition unit_interval :: "random_source \<Rightarrow> bool" where
  "unit_interval random = (\<forall>k. 0 \<le> random k \<and> random k < 1)"

text \<open>
  \<^verbatim>\<open>shuffle(arr)\<close>: \<^verbatim>\<open>for (let i = arr.length - 1; i > 0; i--)\<close> draws
  \<^verbatim>\<open>j = Math.floor(Math.random() * (i + 1))\<close> and swaps \<^verbatim>\<open>arr[i]\<close> with \<^verbatim>\<open>arr[j]\<close>.
\<close>

fun shuffle_from :: "random_source \<Rightarrow> nat \<Rightarrow> nat \<Rightarrow> 'a list \<Rightarrow> 'a list \<times> nat" where
  "shuffle_from random 0 calls arr = (arr, calls)"
| "shuffle_from random (Suc i') calls arr =
     (let i = Suc i';
          j = nat \<lfloor>random calls * of_nat (i + 1)\<rfloor>
      in shuffle_from random i' (Suc calls) (arr[i := arr ! j, j := arr ! i]))"

definition shuffle :: "random_source \<Rightarrow> nat \<Rightarrow> 'a list \<Rightarrow> 'a list \<times> nat" where
  "shuffle random calls arr = shuffle_from random (length arr - 1) calls arr"

text \<open>
  \<^verbatim>\<open>checkLexConstraint(trials, maxRun)\<close>: the loop over \<^verbatim>\<open>i = 1 .. trials.length - 1\<close> carries
  \<^verbatim>\<open>count\<close> (here \<open>cnt\<close>); \<open>check_from maxRun prev cnt rest\<close> is the loop at an index \<open>i\<close>, with
  \<open>prev\<close> the lexicality of \<^verbatim>\<open>trials[i - 1]\<close> and \<open>rest\<close> the lexicalities of
  \<^verbatim>\<open>trials[i], trials[i + 1], ...\<close>.
\<close>

fun check_from :: "int \<Rightarrow> lexicality \<Rightarrow> int \<Rightarrow> lexicality list \<Rightarrow> bool" where
  "check_from maxRun prev cnt [] = True"
| "check_from maxRun prev cnt (cur # rest) =
     (if cur = prev
      then (if cnt + 1 > maxRun then False else check_from maxRun cur (cnt + 1) rest)
      else check_from maxRun cur 1 rest)"

definition checkLexConstraint :: "('a stimulus_item_scheme) list \<Rightarrow> int \<Rightarrow> bool" where
  "checkLexConstraint trials maxRun =
     (case map lexicality trials of
        [] \<Rightarrow> True
      | first # rest \<Rightarrow> check_from maxRun first 1 rest)"

text \<open>
  The property the check is meant to decide, in the words of the specification: the
  list has a run of more than \<open>K\<close> consecutive entries of equal lexicality, that is,
  \<open>n > K\<close> entries from some index \<open>i\<close> on that all equal the entry at \<open>i\<close>.
\<close>

definition run_longer_than :: "int \<Rightarrow> lexicality list \<Rightarrow> bool" where
  "run_longer_than K ls =
     (\<exists>i \<in> {0 ..< length ls}. \<exists>n \<in> {1 .. length ls - i}.
        K < int n \<and> (\<forall>j \<in> {0 ..< n}. ls ! (i + j) = ls ! i))"

text \<open>
  \<^verbatim>\<open>generateTrials()\<close>: the nested loops push, for each repetition and each duration, the
  words and then the pseudowords; then up to 1000 shuffles, stopping at the first one
  that passes the check; then \<^verbatim>\<open>trialNumber\<close> is the final position.
\<close>

definition factorial_trials :: "config \<Rightarrow> trial_info list" where
  "factorial_trials cfg =
     concat (replicate (nat (nReps cfg))
       (concat (map (\<lambda>dur.
          map (\<lambda>word. \<lparr>stimulus = word, lexicality = Word, duration = Some dur\<rparr>) (words cfg) @
          map (\<lambda>pw. \<lparr>stimulus = pw, lexicality = Pseudoword, duration = Some dur\<rparr>) (pseudowords cfg))
        (durations cfg))))"

fun shuffle_attempts ::
  "nat \<Rightarrow> random_source \<Rightarrow> nat \<Rightarrow> int \<Rightarrow> trial_info list \<Rightarrow> trial_info list \<times> nat" where
  "shuffle_attempts 0 random calls maxRun trials = (trials, calls)"
| "shuffle_attempts (Suc remaining) random calls maxRun trials =
     (case shuffle random calls trials of (trials', calls') \<Rightarrow>
        if checkLexConstraint trials' maxRun then (trials', calls')
        else shuffle_attempts remaining random calls' maxRun trials')"

definition number_trials :: "trial_info list \<Rightarrow> trial_spec list" where
  "number_trials trials =
     map (\<lambda>(t, i). \<lparr>stimulus = stimulus t, lexicality = lexicality t, duration = duration t,
                    trialNumber = i\<rparr>)
       (zip trials [0 ..< length trials])"

definition generateTrials :: "config \<Rightarrow> random_source \<Rightarrow> nat \<Rightarrow> trial_spec list \<times> nat" where
  "generateTrials cfg random calls =
     (case shuffle_attempts 1000 random calls (maxSameLexInRow cfg) (factorial_trials cfg) of
        (trials, calls') \<Rightarrow> (number_trials trials, calls'))"

text \<open>
  Whether one of the next \<open>attempts\<close> shuffles passes the check (each shuffle starts from
  the order the previous one left, as the in-place loop does).
\<close>

fun some_attempt_passes ::
  "nat \<Rightarrow> random_source \<Rightarrow> nat \<Rightarrow> int \<Rightarrow> trial_info list \<Rightarrow> bool" where
  "some_attempt_passes 0 random calls maxRun trials = False"
| "some_attempt_passes (Suc remaining) random calls maxRun trials =
     (case shuffle random calls trials of (trials', calls') \<Rightarrow>
        checkLexConstraint trials' maxRun \<or>
        some_attempt_passes remaining random calls' maxRun trials')"

text \<open>
  \<^verbatim>\<open>generatePracticeTrials()\<close>: \<^verbatim>\<open>half = Math.ceil(items.length / 2)\<close>; item \<open>i\<close> gets
  \<^verbatim>\<open>CONFIG.durations[0]\<close> when \<^verbatim>\<open>i < half\<close> and
  \<^verbatim>\<open>CONFIG.durations[CONFIG.durations.length - 1]\<close> otherwise; one shuffle. Reading an
  array outside its bounds gives \<^verbatim>\<open>undefined\<close>.
\<close>

definition at_index :: "'a list \<Rightarrow> int \<Rightarrow> 'a option" where
  "at_index xs i = (if 0 \<le> i \<and> i < int (length xs) then Some (xs ! nat i) else None)"

definition practice_assigned :: "config \<Rightarrow> trial_info list" where
  "practice_assigned cfg =
     (let items = practiceItems cfg;
          half = nat \<lceil>(of_nat (length items) :: rat) / 2\<rceil>
      in map (\<lambda>(item, i).
           \<lparr>stimulus = stimulus item, lexicality = lexicality item,
            duration = (if i < half then at_index (durations cfg) 0
                        else at_index (durations cfg) (int (length (durations cfg)) - 1))\<rparr>)
         (zip items [0 ..< length items]))"

definition generatePracticeTrials :: "config \<Rightarrow> random_source \<Rightarrow> nat \<Rightarrow> trial_info list \<times> nat" where
  "generatePracticeTrials cfg random calls = shuffle random calls (practice_assigned cfg)"


section \<open>Response collector: waitForResponse\<close>

text \<open>
  \<^verbatim>\<open>waitForResponse(promptHtml, timeoutMs)\<close> registers a \<^verbatim>\<open>keydown\<close> listener, a
  \<^verbatim>\<open>pointerup\<close> listener on each of the two buttons and a timer, and resolves its promise
  with \<^verbatim>\<open>{key, rt}\<close>. The state below is what the closure and the browser hold for one
  call: the \<^verbatim>\<open>resolved\<close> flag, the \<^verbatim>\<open>awaiting-response\<close> class of the body, which listeners
  are registered, the pending timer (with its delay), \<^verbatim>\<open>startTime\<close>, and every call of
  \<^verbatim>\<open>resolve\<close> in order. \<^verbatim>\<open>null\<close> is \<open>None\<close>; times are milliseconds.
\<close>

record key_response =
  resp_key :: "string option"
  resp_rt :: "rat option"

record collector =
  resolved :: bool
  awaiting :: bool
  keydownListener :: bool
  tapWordListener :: bool
  tapNonwordListener :: bool
  timer :: "rat option"
  startTime :: rat
  resolveCalls :: "key_response list"

text \<open>An event of the page and the value of \<^verbatim>\<open>performance.now()\<close> when its handler runs:
  a key press with its \<^verbatim>\<open>e.key\<close>, a tap on one of the buttons, or the expiry of the timer.\<close>

datatype input_event = KeyDown string | PointerUpWord | PointerUpNonword | TimerFired

text \<open>\<^verbatim>\<open>toLowerCase()\<close> on the ASCII letters; other characters are left as they are.\<close>

definition toLowerCase :: "string \<Rightarrow> string" where
  "toLowerCase s =
     map (\<lambda>c. if 65 \<le> (of_char c :: nat) \<and> (of_char c :: nat) \<le> 90
              then char_of ((of_char c :: nat) + 32) else c) s"

definition waitForResponse_enter :: "rat \<Rightarrow> rat \<Rightarrow> collector" where
  "waitForResponse_enter now timeoutMs =
     \<lparr>resolved = False, awaiting = True, keydownListener = True, tapWordListener = True,
      tapNonwordListener = True, timer = Some timeoutMs, startTime = now, resolveCalls = []\<rparr>"

definition cleanup :: "collector \<Rightarrow> collector" where
  "cleanup c = c\<lparr>awaiting := False, keydownListener := False, tapWordListener := False,
                 tapNonwordListener := False, timer := None\<rparr>"

definition respond :: "string \<Rightarrow> rat \<Rightarrow> collector \<Rightarrow> collector" where
  "respond k now c =
     (if resolved c then c
      else (let c1 = cleanup (c\<lparr>resolved := True\<rparr>)
            in c1\<lparr>resolveCalls := resolveCalls c1 @
                 [\<lparr>resp_key = Some k, resp_rt = Some (now - startTime c1)\<rparr>]\<rparr>))"

definition onKey :: "config \<Rightarrow> string \<Rightarrow> rat \<Rightarrow> collector \<Rightarrow> collector" where
  "onKey cfg e_key now c =
     (let k = toLowerCase e_key
      in if k = keyWord cfg then respond (keyWord cfg) now c
         else if k = keyNonword cfg then respond (keyNonword cfg) now c
         else c)"

definition onTapWord :: "config \<Rightarrow> rat \<Rightarrow> collector \<Rightarrow> collector" where
  "onTapWord cfg now c = respond (keyWord cfg) now c"

definition onTapNonword :: "config \<Rightarrow> rat \<Rightarrow> collector \<Rightarrow> collector" where
  "onTapNonword cfg now c = respond (keyNonword cfg) now c"

definition onTimeout :: "collector \<Rightarrow> collector" where
  "onTimeout c =
     (if resolved c then c
      else (let c1 = cleanup (c\<lparr>resolved := True\<rparr>)
            in c1\<lparr>resolveCalls := resolveCalls c1 @ [\<lparr>resp_key = None, resp_rt = None\<rparr>]\<rparr>))"

text \<open>The browser runs a handler only while its listener is registered, and the timer
  callback only while the timer has not been cleared.\<close>

fun dispatch :: "config \<Rightarrow> collector \<Rightarrow> input_event \<times> rat \<Rightarrow> collector" where
  "dispatch cfg c (KeyDown e_key, now) = (if keydownListener c then onKey cfg e_key now c else c)"
| "dispatch cfg c (PointerUpWord, now) = (if tapWordListener c then onTapWord cfg now c else c)"
| "dispatch cfg c (PointerUpNonword, now) =
     (if tapNonwordListener c then onTapNonword cfg now c else c)"
| "dispatch cfg c (TimerFired, now) = (if timer c \<noteq> None then onTimeout c else c)"

definition response_window ::
  "config \<Rightarrow> rat \<Rightarrow> rat \<Rightarrow> (input_event \<times> rat) list \<Rightarrow> collector" where
  "response_window cfg now timeoutMs events =
     foldl (dispatch cfg) (waitForResponse_enter now timeoutMs) events"

text \<open>The promise takes the value of the first call of \<^verbatim>\<open>resolve\<close>; it is pending (\<open>None\<close>)
  while there has been none.\<close>

definition waitForResponse ::
  "config \<Rightarrow> rat \<Rightarrow> rat \<Rightarrow> (input_event \<times> rat) list \<Rightarrow> key_response option" where
  "waitForResponse cfg now timeoutMs events =
     (case resolveCalls (response_window cfg now timeoutMs events) of
        [] \<Rightarrow> None
      | r # _ \<Rightarrow> Some r)"

text \<open>
  The events that end a response window, in the words of the specification: an accepted
  input (a key whose lower-cased name is one of the two bound keys, or a tap on one of
  the two buttons) or the timeout; and the decision an accepted input stands for.
\<close>

datatype decision = DecideWord | DecideNonword

fun decision_of :: "config \<Rightarrow> input_event \<Rightarrow> decision option" where
  "decision_of cfg (KeyDown e_key) =
     (if toLowerCase e_key = keyWord cfg then Some DecideWord
      else if toLowerCase e_key = keyNonword cfg then Some DecideNonword
      else None)"
| "decision_of cfg PointerUpWord = Some DecideWord"
| "decision_of cfg PointerUpNonword = Some DecideNonword"
| "decision_of cfg TimerFired = None"

definition ends_window :: "config \<Rightarrow> input_event \<times> rat \<Rightarrow> bool" where
  "ends_window cfg e = (fst e = TimerFired \<or> decision_of cfg (fst e) \<noteq> None)"

definition bound_key :: "config \<Rightarrow> decision \<Rightarrow> string" where
  "bound_key cfg d = (case d of DecideWord \<Rightarrow> keyWord cfg | DecideNonword \<Rightarrow> keyNonword cfg)"

definition window_outcome :: "config \<Rightarrow> rat \<Rightarrow> input_event \<times> rat \<Rightarrow> key_response" where
  "window_outcome cfg now0 e =
     (case decision_of cfg (fst e) of
        None \<Rightarrow> \<lparr>resp_key = None, resp_rt = None\<rparr>
      | Some d \<Rightarrow> \<lparr>resp_key = Some (bound_key cfg d), resp_rt = Some (snd e - now0)\<rparr>)"

definition torn_down :: "collector \<Rightarrow> bool" where
  "torn_down c \<longleftrightarrow> resolved c \<and> \<not> awaiting c \<and> \<not> keydownListener c \<and> \<not> tapWordListener c \<and>
     \<not> tapNonwordListener c \<and> timer c = None"

text \<open>The collector opened at \<open>now\<close> after one call of \<^verbatim>\<open>resolve\<close> with \<open>r\<close> and the
  \<^verbatim>\<open>cleanup\<close> that goes with it.\<close>

definition settled :: "rat \<Rightarrow> key_response \<Rightarrow> collector" where
  "settled now r = \<lparr>resolved = True, awaiting = False, keydownListener = False,
     tapWordListener = False, tapNonwordListener = False, timer = None, startTime = now,
     resolveCalls = [r]\<rparr>"

definition implied_decision :: "lexicality \<Rightarrow> decision" where
  "implied_decision l = (case l of Word \<Rightarrow> DecideWord | Pseudoword \<Rightarrow> DecideNonword)"

section \<open>Trial runner: the score of runTrial\<close>

text \<open>
  \<^verbatim>\<open>(x).toFixed(6)\<close> below \<open>10\<^sup>2\<^sup>1\<close>: the sign, then the integer \<open>n\<close> nearest to
  \<open>|x| \<times> 10\<^sup>6\<close> (the larger one of two), written in decimal, padded with zeros to at
  least seven digits, with the point before the last six.
\<close>

fun digits_of :: "nat \<Rightarrow> string" where
  "digits_of k = (if k < 10 then [char_of (48 + k)]
                  else digits_of (k div 10) @ [char_of (48 + k mod 10)])"

declare digits_of.simps [simp del]

definition toFixed6 :: "rat \<Rightarrow> string" where
  "toFixed6 x =
     (let s = (if x < 0 then ''-'' else '''');
          k = nat \<lfloor>\<bar>x\<bar> * 1000000 + 1 / 2\<rfloor>;
          m = digits_of k;
          m' = (if length m \<le> 6 then replicate (6 + 1 - length m) (CHR ''0'') @ m else m)
      in s @ take (length m' - 6) m' @ ''.'' @ drop (length m' - 6) m')"

text \<open>
  The result object of \<^verbatim>\<open>runTrial\<close>: the trial's fields, \<^verbatim>\<open>response\<close> (\<^verbatim>\<open>""\<close>, \<open>1\<close> or \<open>0\<close>),
  \<^verbatim>\<open>RT\<close> (\<^verbatim>\<open>""\<close> or the seconds with six decimals) and \<^verbatim>\<open>accuracy\<close>.
\<close>

datatype response_field = Blank | Code nat

record trial_result = trial_info +
  response :: response_field
  RT :: string
  accuracy :: int

text \<open>
  \<open>score\<close> is \<^verbatim>\<open>runTrial\<close> from the comment \<^verbatim>\<open>// score\<close> on: it takes the \<^verbatim>\<open>{key, rt}\<close> of the
  response window and gives the feedback text and the result object. A \<^verbatim>\<open>null\<close> \<^verbatim>\<open>rt\<close>
  divided by 1000 is 0 in JavaScript.
\<close>

definition score :: "config \<Rightarrow> 'a trial_info_scheme \<Rightarrow> key_response \<Rightarrow> string \<times> trial_result" where
  "score cfg trialInfo r =
     (let timedOut = (resp_key r = None);
          expected = (if lexicality trialInfo = Word then keyWord cfg else keyNonword cfg);
          correct = (\<not> timedOut \<and> resp_key r = Some expected);
          fbText = (if timedOut then ''Too slow!''
                    else if correct then ''Correct!'' else ''Incorrect.'')
      in (fbText,
          \<lparr>stimulus = stimulus trialInfo,
           lexicality = lexicality trialInfo,
           duration = duration trialInfo,
           response = (if timedOut then Blank
                       else if resp_key r = Some (keyWord cfg) then Code 1 else Code 0),
           RT = (if timedOut then ''''
                 else toFixed6 ((case resp_rt r of None \<Rightarrow> 0 | Some ms \<Rightarrow> ms) / 1000)),
           accuracy = (if correct then 1 else 0)\<rparr>))"

text \<open>
  \<^verbatim>\<open>runTrial(trialInfo)\<close> for the events of its response window, which opens at \<open>now\<close>; the
  fixation, stimulus, mask and feedback phases only display. The result is \<open>None\<close> while
  the window has not resolved.
\<close>

definition runTrial ::
  "config \<Rightarrow> 'a trial_info_scheme \<Rightarrow> rat \<Rightarrow> (input_event \<times> rat) list \<Rightarrow>
     (string \<times> trial_result) option" where
  "runTrial cfg trialInfo now events =
     map_option (score cfg trialInfo) (waitForResponse cfg now (of_int (responseTimeout cfg)) events)"


section \<open>Experiment controller: the welcome form and the start of runExperiment\<close>

text \<open>
  The welcome form. A numeric field is given by what \<^verbatim>\<open>parseInt\<close> returns for its text
  (\<open>None\<close> is \<^verbatim>\<open>NaN\<close>); \<^verbatim>\<open>parseInt(...) || d\<close> is \<open>d\<close> for \<^verbatim>\<open>NaN\<close> and for \<open>0\<close>.
\<close>

record form =
  param_reps :: "int option"
  param_fix_dur :: "int option"
  param_mask_dur :: "int option"
  param_timeout :: "int option"
  param_fb_dur :: "int option"
  param_swap :: bool
  subject_id :: string
  param_practice :: bool
  param_dev_mode :: bool

definition or_default :: "int option \<Rightarrow> int \<Rightarrow> int" where
  "or_default v d = (case v of None \<Rightarrow> d | Some k \<Rightarrow> if k = 0 then d else k)"

definition applyFormParameters :: "form \<Rightarrow> config \<Rightarrow> config" where
  "applyFormParameters f cfg =
     (let cfg1 = cfg\<lparr>nReps := or_default (param_reps f) 1,
                    fixationDuration := or_default (param_fix_dur f) 500,
                    maskDuration := or_default (param_mask_dur f) 150,
                    responseTimeout := or_default (param_timeout f) 2000,
                    feedbackDuration := or_default (param_fb_dur f) 500\<rparr>
      in if param_swap f then cfg1\<lparr>keyWord := ''j'', keyNonword := ''f''\<rparr> else cfg1)"

text \<open>\<^verbatim>\<open>trim()\<close> for the ASCII white space: space, tab, line feed, vertical tab, form feed
  and carriage return.\<close>

definition white_space :: "char \<Rightarrow> bool" where
  "white_space c = ((of_char c :: nat) \<in> set [32, 9, 10, 11, 12, 13])"

definition trim :: "string \<Rightarrow> string" where
  "trim s = rev (dropWhile white_space (rev (dropWhile white_space s)))"

text \<open>
  What \<^verbatim>\<open>runExperiment\<close> can change before its first trial: the shared \<^verbatim>\<open>CONFIG\<close>, the
  module variable \<^verbatim>\<open>sessionDocId\<close>, the \<^verbatim>\<open>sessions\<close> collection of the store, and the
  alerts shown.
\<close>

record session_doc =
  username :: string
  status :: string
  totalTrials :: int
  completedTrials :: nat

record app_state =
  shared_config :: config
  sessionDocId :: "string option"
  sessions :: "session_doc list"
  alerts :: "string list"

datatype start_result =
    Aborted
  | Started string bool bool int

text \<open>
  \<^verbatim>\<open>runExperiment\<close> from its first line to the end of the \<^verbatim>\<open>try\<close> around
  \<^verbatim>\<open>createSession\<close>. \<open>added\<close> is the outcome of \<^verbatim>\<open>addDoc\<close>: the identifier of the new
  document, or \<open>None\<close> when it throws (the error is logged and the run goes on). A started
  run carries the trimmed user name, the two check boxes and \<^verbatim>\<open>totalTrials\<close>.
\<close>

definition runExperiment_start :: "form \<Rightarrow> string option \<Rightarrow> app_state \<Rightarrow> start_result \<times> app_state" where
  "runExperiment_start f added s =
     (let s1 = s\<lparr>shared_config := applyFormParameters f (shared_config s)\<rparr>;
          subjId = trim (subject_id f)
      in if subjId = [] then (Aborted, s1\<lparr>alerts := alerts s1 @ [''Please enter a username.'']\<rparr>)
         else
           (let cfg = shared_config s1;
                includePractice = param_practice f;
                devMode = param_dev_mode f;
                total = (if devMode then 10
                         else nReps cfg * (int (length (words cfg)) + int (length (pseudowords cfg))) *
                              int (length (durations cfg)));
                s2 = (case added of
                        None \<Rightarrow> s1
                      | Some docId \<Rightarrow>
                          s1\<lparr>sessionDocId := Some docId,
                             sessions := sessions s1 @
                               [\<lparr>username = subjId, status = ''in_progress'',
                                 totalTrials = total, completedTrials = 0\<rparr>]\<rparr>)
            in (Started subjId includePractice devMode total, s2)))"

definition initial_state :: app_state where
  "initial_state = \<lparr>shared_config = CONFIG, sessionDocId = None, sessions = [],
                     alerts = []\<rparr>"


section \<open>Statistics aggregation\<close>

text \<open>
  A JavaScript number in the aggregations is \<^verbatim>\<open>NaN\<close> or a finite value, taken as an exact
  rational. \<^verbatim>\<open>parseFloat\<close> is the built-in: the aggregations below take it as the parameter
  \<open>pf\<close>. \<open>parseFloat_decimal\<close> reads what \<^verbatim>\<open>toFixed(6)\<close> writes: white space, a sign, digits
  and a fraction, and gives \<^verbatim>\<open>NaN\<close> when there is no digit.
\<close>

datatype jsnum = NaN | Num rat

fun js_add :: "jsnum \<Rightarrow> jsnum \<Rightarrow> jsnum" where
  "js_add (Num a) (Num b) = Num (a + b)"
| "js_add _ _ = NaN"

fun js_div :: "jsnum \<Rightarrow> nat \<Rightarrow> jsnum" where
  "js_div (Num a) k = Num (a / of_nat k)"
| "js_div NaN k = NaN"

definition is_digit :: "char \<Rightarrow> bool" where
  "is_digit c = (48 \<le> (of_char c :: nat) \<and> (of_char c :: nat) \<le> 57)"

definition digits_value :: "string \<Rightarrow> nat" where
  "digits_value ds = foldl (\<lambda>a c. 10 * a + ((of_char c :: nat) - 48)) 0 ds"

definition parseFloat_decimal :: "string \<Rightarrow> jsnum" where
  "parseFloat_decimal s =
     (let s1 = dropWhile white_space s;
          negative = (s1 \<noteq> [] \<and> hd s1 = CHR ''-'');
          s2 = (if s1 \<noteq> [] \<and> (hd s1 = CHR ''-'' \<or> hd s1 = CHR ''+'') then tl s1 else s1);
          ip = takeWhile is_digit s2;
          r = dropWhile is_digit s2;
          fp = (if r \<noteq> [] \<and> hd r = CHR ''.'' then takeWhile is_digit (tl r) else [])
      in if ip = [] \<and> fp = [] then NaN
         else Num ((if negative then - 1 else 1) *
                   (of_nat (digits_value ip) + of_nat (digits_value fp) / 10 ^ length fp)))"

text \<open>
  One cell of a summary: the mean accuracy (\<open>None\<close> is \<^verbatim>\<open>null\<close>), the mean reaction time of
  the accurate trials (\<open>None\<close> is \<^verbatim>\<open>null\<close>) and the number of trials. \<^verbatim>\<open>experiment.js\<close> names
  the fields \<^verbatim>\<open>acc\<close>, \<^verbatim>\<open>rt\<close>, \<^verbatim>\<open>n\<close> and \<^verbatim>\<open>dashboard.js\<close> names them \<^verbatim>\<open>acc\<close>, \<^verbatim>\<open>meanRT\<close>, \<^verbatim>\<open>n\<close>.
\<close>

record cell_stats =
  cell_acc :: "rat option"
  cell_rt :: "jsnum option"
  cell_n :: nat

subsection \<open>The end-of-session summary: computeSummary of experiment.js\<close>

text \<open>The helper \<^verbatim>\<open>stats(subset)\<close>; its argument is called \<open>part\<close> here.\<close>

definition stats :: "(string \<Rightarrow> jsnum) \<Rightarrow> trial_result list \<Rightarrow> cell_stats" where
  "stats pf part =
     (let n = length part
      in if n = 0 then \<lparr>cell_acc = Some 0, cell_rt = None, cell_n = 0\<rparr>
         else
           (let acc = of_int (foldl (\<lambda>s r. s + accuracy r) 0 part) / of_nat n;
                correct = filter (\<lambda>r. accuracy r = 1 \<and> RT r \<noteq> []) part;
                rt = (if length correct > 0
                      then Some (js_div (foldl (\<lambda>s r. js_add s (pf (RT r))) (Num 0) correct)
                                   (length correct))
                      else None)
            in \<lparr>cell_acc = Some acc, cell_rt = rt, cell_n = n\<rparr>))"

text \<open>
  \<^verbatim>\<open>[...new Set(results.map((r) => r.duration))].sort((a, b) => a - b)\<close>: the distinct
  durations in ascending order; \<^verbatim>\<open>sort\<close> puts \<^verbatim>\<open>undefined\<close> last.
\<close>

definition distinct_sorted_durations :: "trial_result list \<Rightarrow> int option list" where
  "distinct_sorted_durations results =
     (let ds = remdups (map duration results)
      in map Some (sort (concat (map (\<lambda>d. case d of None \<Rightarrow> [] | Some k \<Rightarrow> [k]) ds))) @
         filter (\<lambda>d. d = None) ds)"

text \<open>The objects \<^verbatim>\<open>cells\<close>, \<^verbatim>\<open>byLex\<close> and \<^verbatim>\<open>byDur\<close> are maps from their keys; a key the
  loops never assign has no entry.\<close>

record summary =
  summary_durations :: "int option list"
  cells :: "lexicality \<times> int option \<Rightarrow> cell_stats option"
  byLex :: "lexicality \<Rightarrow> cell_stats option"
  byDur :: "int option \<Rightarrow> cell_stats option"

definition computeSummary :: "(string \<Rightarrow> jsnum) \<Rightarrow> trial_result list \<Rightarrow> summary" where
  "computeSummary pf results =
     (let ds = distinct_sorted_durations results
      in \<lparr>summary_durations = ds,
          cells = (\<lambda>(lex, dur).
            if lex \<in> set [Word, Pseudoword] \<and> dur \<in> set ds
            then Some (stats pf (filter (\<lambda>r. lexicality r = lex \<and> duration r = dur) results))
            else None),
          byLex = (\<lambda>lex.
            if lex \<in> set [Word, Pseudoword]
            then Some (stats pf (filter (\<lambda>r. lexicality r = lex) results))
            else None),
          byDur = (\<lambda>dur.
            if dur \<in> set ds
            then Some (stats pf (filter (\<lambda>r. duration r = dur) results))
            else None)\<rparr>)"

subsection \<open>The live multi-subject view: recomputeAll of dashboard.js\<close>

text \<open>
  The trial documents carry the fields \<^verbatim>\<open>saveTrialToFirestore\<close> copies from the result
  object; their \<^verbatim>\<open>RT\<close> is a string, so of the three tests \<^verbatim>\<open>""\<close>, \<^verbatim>\<open>null\<close> and
  \<^verbatim>\<open>undefined\<close> only the first can hold. \<open>recomputeAll\<close> gives the \<^verbatim>\<open>grandStats\<close> handed to
  \<^verbatim>\<open>updateCharts\<close>, or \<open>None\<close> when it returns at once because there is no trial.
\<close>

definition clean_trials :: "(string \<Rightarrow> jsnum) \<Rightarrow> trial_result list \<Rightarrow> trial_result list" where
  "clean_trials pf allTrials =
     filter (\<lambda>t. if RT t = [] then False
                 else (case pf (RT t) of
                         NaN \<Rightarrow> False
                       | Num rt \<Rightarrow> if rt < 2 / 10 then False
                                  else if rt > 2 then False
                                  else True))
       allTrials"

definition conditions :: "(lexicality \<times> int) list" where
  "conditions = [(Word, 40), (Word, 200), (Pseudoword, 40), (Pseudoword, 200)]"

definition grand_cell :: "(string \<Rightarrow> jsnum) \<Rightarrow> trial_result list \<Rightarrow> cell_stats" where
  "grand_cell pf part =
     (let n = length part;
          acc = (if n > 0 then Some (of_int (foldl (\<lambda>s t. s + accuracy t) 0 part) / of_nat n)
                 else None);
          correct = filter (\<lambda>t. accuracy t = 1) part;
          meanRT = (if length correct > 0
                    then Some (js_div (foldl (\<lambda>s t. js_add s (pf (RT t))) (Num 0) correct)
                                 (length correct))
                    else None)
      in \<lparr>cell_acc = acc, cell_rt = meanRT, cell_n = n\<rparr>)"

definition recomputeAll ::
  "(string \<Rightarrow> jsnum) \<Rightarrow> trial_result list \<Rightarrow> (lexicality \<times> int \<Rightarrow> cell_stats option) option" where
  "recomputeAll pf allTrials =
     (if length allTrials = 0 then None
      else
        (let clean = clean_trials pf allTrials
         in Some (\<lambda>(lex, dur).
              if (lex, dur) \<in> set conditions
              then Some (grand_cell pf
                     (filter (\<lambda>t. lexicality t = lex \<and> duration t = Some dur) clean))
              else None)))"

text \<open>The entry of \<^verbatim>\<open>grandStats\<close> that \<^verbatim>\<open>updateCharts\<close> reads for a condition, when the
  recomputation got that far.\<close>

definition grandStats_at ::
  "(string \<Rightarrow> jsnum) \<Rightarrow> trial_result list \<Rightarrow> lexicality \<times> int \<Rightarrow> cell_stats option" where
  "grandStats_at pf allTrials k =
     (case recomputeAll pf allTrials of None \<Rightarrow> None | Some grandStats \<Rightarrow> grandStats k)"


section \<open>Sample inputs\<close>

text \<open>A random source whose every draw is \<open>1/2\<close>, and configurations that differ from
  the built-in one in the stimulus lists or in the order of the duration levels.\<close>

definition midpoint_random :: random_source where
  "midpoint_random k = 1 / 2"

definition small_config :: config where
  "small_config = CONFIG\<lparr>words := [''river'', ''sugar''], pseudowords := [''tible'']\<rparr>"

definition descending_config :: config where
  "descending_config = CONFIG\<lparr>durations := [200, 40]\<rparr>"

definition river_40 :: trial_info where
  "river_40 = \<lparr>stimulus = ''river'', lexicality = Word, duration = Some 40\<rparr>"

definition tible_40 :: trial_info where
  "tible_40 = \<lparr>stimulus = ''tible'', lexicality = Pseudoword, duration = Some 40\<rparr>"

text \<open>The welcome form as the page loads it, and one with two repetitions, the key swap
  and a user name of blanks only.\<close>

definition default_form :: form where
  "default_form = \<lparr>param_reps = Some 1, param_fix_dur = Some 500, param_mask_dur = Some 150,
                    param_timeout = Some 2000, param_fb_dur = Some 500, param_swap = False,
                    subject_id = ''s01'', param_practice = False, param_dev_mode = False\<rparr>"

definition nameless_form :: form where
  "nameless_form = default_form\<lparr>param_reps := Some 2, param_swap := True, subject_id := ''  ''\<rparr>"

text \<open>Result objects: a word answered correctly after 150 ms, and after 300 ms; a word
  left unanswered.\<close>

definition fast_trial :: trial_result where
  "fast_trial = \<lparr>stimulus = ''river'', lexicality = Word, duration = Some 40,
                  response = Code 1, RT = ''0.150000'', accuracy = 1\<rparr>"

definition steady_trial :: trial_result where
  "steady_trial = \<lparr>stimulus = ''sugar'', lexicality = Word, duration = Some 40,
                    response = Code 1, RT = ''0.300000'', accuracy = 1\<rparr>"

definition missed_trial :: trial_result where
  "missed_trial = \<lparr>stimulus = ''forest'', lexicality = Word, duration = Some 200,
                    response = Blank, RT = '''', accuracy = 0\<rparr>"


section \<open>The lexicality-run check\<close>

lemma run_longer_than_Nil: "\<not> run_longer_than K []"
  by (simp add: run_longer_than_def)

lemma run_longer_thanI:
  assumes "i < length ls" "1 \<le> n" "n \<le> length ls - i" "K < int n" "\<And>j. j < n \<Longrightarrow> ls ! (i + j) = ls ! i"
  shows "run_longer_than K ls"
  unfolding run_longer_than_def
proof (rule bexI [of _ i], rule bexI [of _ n])
  show "K < int n \<and> (\<forall>j\<in>{0..<n}. ls ! (i + j) = ls ! i)" using assms(4,5) by simp
  show "n \<in> {1..length ls - i}" using assms(2,3) by simp
  show "i \<in> {0..<length ls}" using assms(1) by simp
qed

lemma takeWhile_ge:
  assumes "m \<le> length xs" "\<forall>j<m. P (xs ! j)"
  shows "m \<le> length (takeWhile P xs)"
proof (rule ccontr)
  assume "\<not> m \<le> length (takeWhile P xs)"
  then have lt: "length (takeWhile P xs) < m" by simp
  with assms(1) have "length (takeWhile P xs) < length xs" by simp
  then have "\<not> P (xs ! length (takeWhile P xs))" by (rule nth_length_takeWhile)
  with assms(2) lt show False by blast
qed

lemma run_longer_than_Cons:
  "run_longer_than K (x # xs) \<longleftrightarrow>
     K < int (Suc (length (takeWhile (\<lambda>y. y = x) xs))) \<or> run_longer_than K xs"
  (is "?L \<longleftrightarrow> ?A \<or> ?R")
proof
  assume ?L
  then obtain i n where i: "i < Suc (length xs)" and n: "1 \<le> n" "n \<le> Suc (length xs) - i"
    and K: "K < int n" and eq: "\<forall>j<n. (x # xs) ! (i + j) = (x # xs) ! i"
    by (auto simp: run_longer_than_def)
  show "?A \<or> ?R"
  proof (cases i)
    case 0
    have "n - 1 \<le> length (takeWhile (\<lambda>y. y = x) xs)"
    proof (rule takeWhile_ge)
      show "n - 1 \<le> length xs" using n 0 by simp
      show "\<forall>j<n - 1. xs ! j = x"
      proof (intro allI impI)
        fix j assume "j < n - 1"
        then have "Suc j < n" by simp
        with eq 0 have "(x # xs) ! (0 + Suc j) = (x # xs) ! 0" by blast
        then show "xs ! j = x" by simp
      qed
    qed
    then have "int n \<le> int (Suc (length (takeWhile (\<lambda>y. y = x) xs)))" by linarith
    with K have ?A by linarith
    then show ?thesis ..
  next
    case (Suc i')
    have "run_longer_than K xs"
    proof (rule run_longer_thanI [of i' _ n])
      show "K < int n" by fact
      show "xs ! (i' + j) = xs ! i'" if "j < n" for j
        using eq that Suc by auto
      show "n \<le> length xs - i'" "1 \<le> n" using n Suc by simp_all
      show "i' < length xs" using i Suc by simp
    qed
    then show ?thesis ..
  qed
next
  assume "?A \<or> ?R"
  then show ?L
  proof
    assume A: ?A
    let ?n = "Suc (length (takeWhile (\<lambda>y. y = x) xs))"
    show ?L
    proof (rule run_longer_thanI [of 0 _ ?n])
      show "K < int ?n" by fact
      show "(x # xs) ! (0 + j) = (x # xs) ! 0" if "j < ?n" for j
      proof (cases j)
        case (Suc j')
        with that have lt: "j' < length (takeWhile (\<lambda>y. y = x) xs)" by simp
        then have "takeWhile (\<lambda>y. y = x) xs ! j' = xs ! j'" by (rule takeWhile_nth)
        moreover have "takeWhile (\<lambda>y. y = x) xs ! j' \<in> set (takeWhile (\<lambda>y. y = x) xs)"
          using lt by simp
        then have "takeWhile (\<lambda>y. y = x) xs ! j' = x" by (auto dest: set_takeWhileD)
        ultimately show ?thesis using Suc by simp
      qed simp
      show "?n \<le> length (x # xs) - 0" using length_takeWhile_le [of "\<lambda>y. y = x" xs] by simp
      show "1 \<le> ?n" "0 < length (x # xs)" by simp_all
    qed
  next
    assume ?R
    then obtain i n where i: "i < length xs" and n: "1 \<le> n" "n \<le> length xs - i"
      and K: "K < int n" and eq: "\<forall>j<n. xs ! (i + j) = xs ! i"
      by (auto simp: run_longer_than_def)
    show ?L
    proof (rule run_longer_thanI [of "Suc i" _ n])
      show "K < int n" by fact
      show "(x # xs) ! (Suc i + j) = (x # xs) ! Suc i" if "j < n" for j
        using eq that by simp
      show "n \<le> length (x # xs) - Suc i" "1 \<le> n" using n by simp_all
      show "Suc i < length (x # xs)" using i by simp
    qed
  qed
qed

lemma check_from_iff:
  "1 \<le> c \<Longrightarrow> c \<le> K \<Longrightarrow>
   check_from K prev c xs \<longleftrightarrow>
     \<not> K < c + int (length (takeWhile (\<lambda>y. y = prev) xs)) \<and> \<not> run_longer_than K xs"
proof (induction xs arbitrary: prev c)
  case Nil
  then show ?case by (simp add: run_longer_than_Nil)
next
  case (Cons x xs)
  show ?case
  proof (cases "x = prev")
    case True
    show ?thesis
    proof (cases "c + 1 > K")
      case True
      with \<open>x = prev\<close> show ?thesis by simp
    next
      case False
      then have "c + 1 \<le> K" "1 \<le> c + 1" using Cons.prems by simp_all
      from Cons.IH [OF this(2,1), of x] \<open>x = prev\<close> False Cons.prems
      show ?thesis by (auto simp: run_longer_than_Cons)
    qed
  next
    case False
    have "1 \<le> (1::int)" "1 \<le> K" using Cons.prems by simp_all
    from Cons.IH [OF this, of x] False Cons.prems
    show ?thesis by (auto simp: run_longer_than_Cons)
  qed
qed

lemma checkLexConstraint_iff:
  "1 \<le> K \<Longrightarrow> checkLexConstraint trials K \<longleftrightarrow> \<not> run_longer_than K (map lexicality trials)"
proof (cases "map lexicality trials")
  case Nil
  then show ?thesis by (simp add: checkLexConstraint_def run_longer_than_Nil)
next
  case (Cons l ls)
  assume "1 \<le> K"
  with check_from_iff [of 1 K l ls] Cons show ?thesis
    by (simp add: checkLexConstraint_def run_longer_than_Cons)
qed


section \<open>Shuffling, the retry loop and the factorial design\<close>

lemma map_fst_zip_fun:
  "length xs = length ys \<Longrightarrow> map (\<lambda>p. f (fst p)) (zip xs ys) = map f xs"
  by (induction xs ys rule: list_induct2) simp_all

lemma lexicality_number_trials: "map lexicality (number_trials trials) = map lexicality trials"
  by (simp add: number_trials_def case_prod_unfold comp_def map_fst_zip_fun)

lemma shuffle_attempts_passes:
  "some_attempt_passes n random calls K trials \<Longrightarrow>
   checkLexConstraint (fst (shuffle_attempts n random calls K trials)) K"
  by (induction n arbitrary: calls trials) (auto split: prod.splits)

lemma shuffle_attempts_exhausted:
  "\<not> some_attempt_passes (Suc n) random calls K trials \<Longrightarrow>
   \<not> checkLexConstraint (fst (shuffle_attempts (Suc n) random calls K trials)) K"
proof (induction n arbitrary: calls trials)
  case 0
  then show ?case by (auto split: prod.splits)
next
  case (Suc n)
  obtain t' c' where sh: "shuffle random calls trials = (t', c')" by (cases "shuffle random calls trials")
  from Suc.prems sh have nopass: "\<not> checkLexConstraint t' K"
    and rest: "\<not> some_attempt_passes (Suc n) random c' K t'"
    by (simp_all del: some_attempt_passes.simps(2) add: some_attempt_passes.simps(2) [of "Suc n"])
  from Suc.IH [OF rest] nopass sh show ?case
    by (simp del: shuffle_attempts.simps(2) some_attempt_passes.simps(2) add: shuffle_attempts.simps(2) [of "Suc n"])
qed

lemma random_index_less:
  assumes "unit_interval random"
  shows "nat \<lfloor>random k * of_nat (Suc i)\<rfloor> < Suc i"
proof -
  from assms have r: "0 \<le> random k" "random k < 1" by (auto simp: unit_interval_def)
  have pos: "(0::rat) < of_nat (Suc i)" by simp
  have "random k * of_nat (Suc i) < 1 * of_nat (Suc i)"
    using r(2) pos by (rule mult_strict_right_mono)
  then have "random k * of_nat (Suc i) < of_int (int (Suc i))" by simp
  then have "\<lfloor>random k * of_nat (Suc i)\<rfloor> < int (Suc i)" by (simp only: floor_less_iff)
  then show ?thesis by linarith
qed

lemma shuffle_from_mset:
  "unit_interval random \<Longrightarrow> i < length arr \<or> i = 0 \<Longrightarrow>
   mset (fst (shuffle_from random i calls arr)) = mset arr"
proof (induction i arbitrary: calls arr)
  case 0
  then show ?case by simp
next
  case (Suc i)
  let ?j = "nat \<lfloor>random calls * of_nat (Suc i + 1)\<rfloor>"
  let ?arr = "arr[Suc i := arr ! ?j, ?j := arr ! Suc i]"
  from Suc.prems have len: "Suc i < length arr" by simp
  have "?j < Suc (Suc i)" using random_index_less [OF Suc.prems(1), of calls "Suc i"] by simp
  with len have j: "?j < length arr" by simp
  have sw: "mset ?arr = mset arr" using len j by (simp add: mset_swap)
  have "mset (fst (shuffle_from random i (Suc calls) ?arr)) = mset ?arr"
    using Suc.prems(1) len by (intro Suc.IH) simp_all
  with sw show ?case by (simp add: Let_def)
qed

lemma shuffle_from_calls: "snd (shuffle_from random i calls arr) = calls + i"
  by (induction i arbitrary: calls arr) (simp_all add: Let_def)

lemma shuffle_mset: "unit_interval random \<Longrightarrow> mset (fst (shuffle random calls arr)) = mset arr"
  unfolding shuffle_def by (rule shuffle_from_mset) (cases arr; simp)+

lemma shuffle_calls: "snd (shuffle random calls arr) = calls + (length arr - 1)"
  by (simp add: shuffle_def shuffle_from_calls)

lemma shuffle_attempts_mset:
  "unit_interval random \<Longrightarrow> mset (fst (shuffle_attempts n random calls K trials)) = mset trials"
proof (induction n arbitrary: calls trials)
  case 0
  then show ?case by simp
next
  case (Suc n)
  obtain t' c' where sh: "shuffle random calls trials = (t', c')"
    by (cases "shuffle random calls trials")
  with shuffle_mset [OF Suc.prems, of calls trials] have "mset t' = mset trials" by simp
  with Suc.IH [OF Suc.prems, of c' t'] sh show ?case by simp
qed

lemma filter_length_mset: "mset xs = mset ys \<Longrightarrow> length (filter P xs) = length (filter P ys)"
  by (metis mset_filter size_mset)

lemma length_filter_concat:
  "length (filter P (concat xss)) = sum_list (map (\<lambda>xs. length (filter P xs)) xss)"
  by (induction xss) simp_all

lemma sum_list_replicate_nat: "sum_list (replicate n (k::nat)) = n * k"
  by (induction n) simp_all

lemma sum_list_if_count:
  "sum_list (map (\<lambda>x. if x = d then (k::nat) else 0) ds) = count_list ds d * k"
  by (induction ds) simp_all

lemma factorial_trials_count:
  "length (filter (\<lambda>t. stimulus t = s \<and> duration t = Some d) (factorial_trials cfg)) =
     nat (nReps cfg) * ((count_list (words cfg) s + count_list (pseudowords cfg) s) *
       count_list (durations cfg) d)"
proof -
  let ?P = "\<lambda>t::trial_info. stimulus t = s \<and> duration t = Some d"
  let ?block = "\<lambda>dur.
          map (\<lambda>word. \<lparr>stimulus = word, lexicality = Word, duration = Some dur\<rparr>) (words cfg) @
          map (\<lambda>pw. \<lparr>stimulus = pw, lexicality = Pseudoword, duration = Some dur\<rparr>) (pseudowords cfg)"
  have block: "length (filter ?P (?block dur)) =
      (if dur = d then count_list (words cfg) s + count_list (pseudowords cfg) s else 0)" for dur
  proof -
    have w: "length (filter ?P (map (\<lambda>word. \<lparr>stimulus = word, lexicality = Word, duration = Some dur\<rparr>) xs))
        = (if dur = d then count_list xs s else 0)" for xs
      by (induction xs) auto
    have p: "length (filter ?P (map (\<lambda>pw. \<lparr>stimulus = pw, lexicality = Pseudoword, duration = Some dur\<rparr>) xs))
        = (if dur = d then count_list xs s else 0)" for xs
      by (induction xs) auto
    show ?thesis by (simp only: filter_append length_append w p) simp
  qed
  have rep: "length (filter ?P (concat (map ?block (durations cfg)))) =
      count_list (durations cfg) d * (count_list (words cfg) s + count_list (pseudowords cfg) s)"
    by (simp only: length_filter_concat map_map comp_def block sum_list_if_count)
  have "length (filter ?P (factorial_trials cfg)) =
      nat (nReps cfg) * length (filter ?P (concat (map ?block (durations cfg))))"
    unfolding factorial_trials_def
    by (simp only: length_filter_concat map_replicate sum_list_replicate_nat)
  with rep show ?thesis by (simp add: mult.commute)
qed

lemma factorial_trials_length:
  "length (factorial_trials cfg) =
     (length (words cfg) + length (pseudowords cfg)) * length (durations cfg) * nat (nReps cfg)"
proof -
  have "length (concat (map (\<lambda>dur. f dur @ g dur) ds)) = (m + k) * length ds"
    if "\<And>dur. length (f dur) = m" "\<And>dur. length (g dur) = k"
    for f g :: "int \<Rightarrow> trial_info list" and ds m k
    using that by (induction ds) (simp_all add: algebra_simps)
  from this [of "\<lambda>dur. map (\<lambda>word. \<lparr>stimulus = word, lexicality = Word, duration = Some dur\<rparr>) (words cfg)"
      "length (words cfg)"
      "\<lambda>dur. map (\<lambda>pw. \<lparr>stimulus = pw, lexicality = Pseudoword, duration = Some dur\<rparr>) (pseudowords cfg)"
      "length (pseudowords cfg)" "durations cfg"]
  show ?thesis
    unfolding factorial_trials_def
    by (simp add: length_concat sum_list_replicate_nat mult.commute)
qed

lemma number_trials_length: "length (number_trials trials) = length trials"
  by (simp add: number_trials_def)

lemma number_trials_numbers: "map trialNumber (number_trials trials) = [0 ..< length trials]"
proof -
  have "map (\<lambda>p. f (snd p)) (zip xs ys) = map f ys" if "length xs = length ys"
    for f :: "nat \<Rightarrow> nat" and xs :: "trial_info list" and ys
    using that by (induction xs ys rule: list_induct2) simp_all
  from this [of trials "[0 ..< length trials]" "\<lambda>i. i"] show ?thesis
    by (simp add: number_trials_def case_prod_unfold comp_def)
qed

lemma number_trials_filter:
  "length (filter (\<lambda>t. stimulus t = s \<and> duration t = Some d) (number_trials trials)) =
   length (filter (\<lambda>t. stimulus t = s \<and> duration t = Some d) trials)"
proof -
  have "length (filter (\<lambda>t. stimulus t = s \<and> duration t = Some d)
          (map (\<lambda>(t, i). \<lparr>stimulus = stimulus t, lexicality = lexicality t, duration = duration t,
                    trialNumber = i\<rparr>) zs)) =
        length (filter (\<lambda>t. stimulus t = s \<and> duration t = Some d) (map fst zs))"
    for zs :: "(trial_info \<times> nat) list"
    by (induction zs) auto
  from this [of "zip trials [0 ..< length trials]"] show ?thesis
    by (simp add: number_trials_def)
qed


section \<open>Claims about trial generation\<close>

lemma count_list_distinct: "distinct xs \<Longrightarrow> x \<in> set xs \<Longrightarrow> count_list xs x = 1"
  by (induction xs) auto

lemma count_list_app: "count_list (xs @ ys) x = count_list xs x + count_list ys x"
  by (induction xs) simp_all

text \<open>
  Claim C4. For every configuration and every outcome of the random draws,
  \<open>generateTrials\<close> returns \<open>(|W| + |P|) \<times> |D| \<times> R\<close> trials (\<open>R\<close> the repetition count, none
  when it is negative); the number of trials with a given stimulus and duration is \<open>R\<close>
  times the occurrences of the stimulus in the two lists times the occurrences of the
  duration, hence exactly \<open>R\<close> for every pair of \<open>(W \<union> P) \<times> D\<close> when the lists hold no
  item twice; and the trial numbers are \<open>0, 1, 2, ...\<close> by final position.
\<close>

theorem generateTrials_full_factorial:
  assumes "unit_interval random"
  shows "length (fst (generateTrials cfg random calls)) =
           (length (words cfg) + length (pseudowords cfg)) * length (durations cfg) * nat (nReps cfg) \<and>
         length (filter (\<lambda>t. stimulus t = s \<and> duration t = Some d) (fst (generateTrials cfg random calls))) =
           nat (nReps cfg) * ((count_list (words cfg) s + count_list (pseudowords cfg) s) *
             count_list (durations cfg) d) \<and>
         (distinct (words cfg @ pseudowords cfg) \<and> distinct (durations cfg) \<and>
          s \<in> set (words cfg @ pseudowords cfg) \<and> d \<in> set (durations cfg) \<longrightarrow>
            length (filter (\<lambda>t. stimulus t = s \<and> duration t = Some d)
              (fst (generateTrials cfg random calls))) = nat (nReps cfg)) \<and>
         map trialNumber (fst (generateTrials cfg random calls)) =
           [0 ..< length (fst (generateTrials cfg random calls))]"
proof -
  obtain trials calls' where att:
    "shuffle_attempts 1000 random calls (maxSameLexInRow cfg) (factorial_trials cfg) = (trials, calls')"
    by (cases "shuffle_attempts 1000 random calls (maxSameLexInRow cfg) (factorial_trials cfg)")
  then have gen: "fst (generateTrials cfg random calls) = number_trials trials"
    by (simp add: generateTrials_def)
  from shuffle_attempts_mset [OF assms, of 1000 calls "maxSameLexInRow cfg" "factorial_trials cfg"] att
  have perm: "mset trials = mset (factorial_trials cfg)" by simp
  then have "length trials = length (factorial_trials cfg)" by (rule mset_eq_length)
  then have len: "length (fst (generateTrials cfg random calls)) =
      (length (words cfg) + length (pseudowords cfg)) * length (durations cfg) * nat (nReps cfg)"
    by (simp add: gen number_trials_length factorial_trials_length)
  have cnt: "length (filter (\<lambda>t. stimulus t = s \<and> duration t = Some d) (fst (generateTrials cfg random calls))) =
      nat (nReps cfg) * ((count_list (words cfg) s + count_list (pseudowords cfg) s) *
        count_list (durations cfg) d)"
    unfolding gen number_trials_filter
    by (simp only: filter_length_mset [OF perm] factorial_trials_count)
  have one: "length (filter (\<lambda>t. stimulus t = s \<and> duration t = Some d)
      (fst (generateTrials cfg random calls))) = nat (nReps cfg)"
    if "distinct (words cfg @ pseudowords cfg)" "distinct (durations cfg)"
       "s \<in> set (words cfg @ pseudowords cfg)" "d \<in> set (durations cfg)"
  proof -
    have "count_list (words cfg) s + count_list (pseudowords cfg) s = 1"
      using count_list_distinct [OF that(1,3)] by (simp only: count_list_app)
    moreover have "count_list (durations cfg) d = 1"
      using that(2,4) by (rule count_list_distinct)
    ultimately show ?thesis by (simp add: cnt)
  qed
  have num: "map trialNumber (fst (generateTrials cfg random calls)) =
      [0 ..< length (fst (generateTrials cfg random calls))]"
    by (simp add: gen number_trials_numbers number_trials_length)
  from len cnt one num show ?thesis by blast
qed

lemma unit_interval_midpoint: "unit_interval midpoint_random"
  by (simp add: unit_interval_def midpoint_random_def)

theorem generateTrials_full_factorial_witness:
  "unit_interval midpoint_random \<and>
   distinct (words small_config @ pseudowords small_config) \<and> distinct (durations small_config) \<and>
   ''tible'' \<in> set (words small_config @ pseudowords small_config) \<and> 200 \<in> set (durations small_config) \<and>
   length (fst (generateTrials small_config midpoint_random 0)) = 6 \<and>
   length (filter (\<lambda>t. stimulus t = ''tible'' \<and> duration t = Some 200)
     (fst (generateTrials small_config midpoint_random 0))) = 1 \<and>
   map trialNumber (fst (generateTrials small_config midpoint_random 0)) = [0, 1, 2, 3, 4, 5]"
proof -
  have cfg: "words small_config = [''river'', ''sugar'']" "pseudowords small_config = [''tible'']"
    "durations small_config = [40, 200]" "nReps small_config = 1"
    by (simp_all add: small_config_def CONFIG_def)
  have hyp: "distinct (words small_config @ pseudowords small_config) \<and> distinct (durations small_config) \<and>
      ''tible'' \<in> set (words small_config @ pseudowords small_config) \<and> 200 \<in> set (durations small_config)"
    by (simp add: cfg)
  note inst = generateTrials_full_factorial [OF unit_interval_midpoint, of small_config 0 "''tible''" 200]
  from inst have len: "length (fst (generateTrials small_config midpoint_random 0)) = 6"
    by (simp add: cfg)
  from inst hyp have one: "length (filter (\<lambda>t. stimulus t = ''tible'' \<and> duration t = Some 200)
      (fst (generateTrials small_config midpoint_random 0))) = 1"
    by (simp only: cfg) simp
  have upt: "[0 ..< 6] = [0, 1, 2, 3, 4, 5 :: nat]" by code_simp
  from inst have "map trialNumber (fst (generateTrials small_config midpoint_random 0)) =
      [0 ..< length (fst (generateTrials small_config midpoint_random 0))]" by blast
  then have num: "map trialNumber (fst (generateTrials small_config midpoint_random 0)) = [0, 1, 2, 3, 4, 5]"
    by (simp only: len upt)
  from unit_interval_midpoint hyp len one num show ?thesis by blast
qed

text \<open>
  Claim C5. For a maximum run length \<open>K \<ge> 1\<close>, \<open>checkLexConstraint trials K\<close> is true
  exactly when the trials have no run of more than \<open>K\<close> consecutive entries of equal
  lexicality; and when one of the (at most 1000) shuffles of \<open>generateTrials\<close> passes the
  check, the generated sequence has no such run for the configured \<open>K\<close>, while a sequence
  accepted after all 1000 shuffles failed has one.
\<close>

theorem generated_sequence_run_constraint:
  fixes trials :: "trial_info list"
  assumes "1 \<le> K" and "1 \<le> maxSameLexInRow cfg"
  shows "(checkLexConstraint trials K \<longleftrightarrow> \<not> run_longer_than K (map lexicality trials)) \<and>
         (some_attempt_passes 1000 random calls (maxSameLexInRow cfg) (factorial_trials cfg) \<longleftrightarrow>
            \<not> run_longer_than (maxSameLexInRow cfg)
                (map lexicality (fst (generateTrials cfg random calls))))"
proof -
  let ?K = "maxSameLexInRow cfg"
  let ?out = "fst (shuffle_attempts 1000 random calls ?K (factorial_trials cfg))"
  have lex: "map lexicality (fst (generateTrials cfg random calls)) = map lexicality ?out"
    by (simp add: generateTrials_def lexicality_number_trials split: prod.splits)
  have "some_attempt_passes 1000 random calls ?K (factorial_trials cfg) \<longleftrightarrow>
          checkLexConstraint ?out ?K"
  proof
    assume "some_attempt_passes 1000 random calls ?K (factorial_trials cfg)"
    then show "checkLexConstraint ?out ?K" by (rule shuffle_attempts_passes)
  next
    assume ok: "checkLexConstraint ?out ?K"
    have "(1000::nat) = Suc 999" by simp
    with shuffle_attempts_exhausted [of 999 random calls ?K "factorial_trials cfg"] ok
    show "some_attempt_passes 1000 random calls ?K (factorial_trials cfg)" by metis
  qed
  also have "\<dots> \<longleftrightarrow> \<not> run_longer_than ?K (map lexicality ?out)"
    using assms(2) by (rule checkLexConstraint_iff)
  finally have gen: "some_attempt_passes 1000 random calls ?K (factorial_trials cfg) \<longleftrightarrow>
      \<not> run_longer_than ?K (map lexicality (fst (generateTrials cfg random calls)))"
    by (simp only: lex)
  from checkLexConstraint_iff [OF assms(1), of trials] gen show ?thesis by blast
qed

theorem generated_sequence_run_constraint_witness:
  "1 \<le> (3::int) \<and> 1 \<le> maxSameLexInRow small_config \<and>
   \<not> checkLexConstraint (factorial_trials CONFIG) 3 \<and>
   run_longer_than 3 (map lexicality (factorial_trials CONFIG)) \<and>
   some_attempt_passes 1000 midpoint_random 0 (maxSameLexInRow small_config)
     (factorial_trials small_config) \<and>
   \<not> run_longer_than (maxSameLexInRow small_config)
       (map lexicality (fst (generateTrials small_config midpoint_random 0)))"
proof -
  have K: "1 \<le> (3::int)" by simp
  have cfgK: "1 \<le> maxSameLexInRow small_config"
    by (simp add: small_config_def CONFIG_def)
  have fails: "\<not> checkLexConstraint (factorial_trials CONFIG) 3" by code_simp
  have passes: "some_attempt_passes 1000 midpoint_random 0 (maxSameLexInRow small_config)
      (factorial_trials small_config)" by code_simp
  from generated_sequence_run_constraint [OF K cfgK, of "factorial_trials CONFIG" midpoint_random 0]
    K cfgK fails passes
  show ?thesis by blast
qed

lemma sorted_le_last: "sorted ds \<Longrightarrow> x \<in> set ds \<Longrightarrow> x \<le> last ds"
  for ds :: "'a::linorder list"
  by (induction ds) auto

lemma at_index_first_sorted:
  assumes "ds \<noteq> []" "sorted ds"
  shows "at_index ds 0 = Some (Min (set ds))" "at_index ds (int (length ds) - 1) = Some (Max (set ds))"
proof -
  from assms(1) obtain d rest where ds: "ds = d # rest" by (cases ds) auto
  with assms(2) have "\<forall>x \<in> set ds. d \<le> x" by auto
  then have "Min (set ds) = d" using ds by (intro Min_eqI) auto
  then show "at_index ds 0 = Some (Min (set ds))" by (simp add: at_index_def ds)
  have "\<forall>x \<in> set ds. x \<le> last ds"
    using assms(2) by (auto intro: sorted_le_last)
  moreover have "last ds \<in> set ds" using assms(1) by simp
  ultimately have "Max (set ds) = last ds" by (intro Max_eqI) auto
  moreover have "nat (int (length ds) - 1) = length ds - 1" by simp
  ultimately show "at_index ds (int (length ds) - 1) = Some (Max (set ds))"
    using assms(1) by (simp add: at_index_def last_conv_nth)
qed

lemma ceil_half: "nat \<lceil>(of_nat n :: rat) / 2\<rceil> = (n + 1) div 2"
proof -
  have "\<lceil>(of_nat n :: rat) / 2\<rceil> = \<lceil>(of_int (int n) :: rat) / of_int 2\<rceil>" by simp
  also have "\<dots> = - ((- int n) div 2)" by (simp only: ceiling_divide_eq_div)
  also have "\<dots> = (int n + 1) div 2" by presburger
  finally show ?thesis by (simp add: nat_div_distrib nat_add_distrib)
qed

lemma practice_assigned_index:
  "practice_assigned cfg =
     map (\<lambda>i. \<lparr>stimulus = stimulus (practiceItems cfg ! i),
                lexicality = lexicality (practiceItems cfg ! i),
                duration = (if i < (length (practiceItems cfg) + 1) div 2
                            then at_index (durations cfg) 0
                            else at_index (durations cfg) (int (length (durations cfg)) - 1))\<rparr>)
       [0 ..< length (practiceItems cfg)]"
  by (rule nth_equalityI) (simp_all add: practice_assigned_def Let_def ceil_half)


text \<open>
  Claim C9, as the code has it. For every configuration and every outcome of the random
  draws, \<open>generatePracticeTrials\<close> returns a reordering of the practice catalog in which
  item \<open>i\<close> carries the first entry of the duration list when \<open>i < \<lceil>n/2\<rceil>\<close> and the last
  entry otherwise (\<open>undefined\<close> when the list is empty); it makes the \<open>n - 1\<close> draws of one
  shuffle and no check of the lexicality runs. The first and the last entry are the
  shortest and the longest duration when the list is in ascending order.
\<close>

theorem generatePracticeTrials_halves:
  assumes "unit_interval random"
  shows "mset (fst (generatePracticeTrials cfg random calls)) =
           mset (map (\<lambda>i. \<lparr>stimulus = stimulus (practiceItems cfg ! i),
                      lexicality = lexicality (practiceItems cfg ! i),
                      duration = (if i < (length (practiceItems cfg) + 1) div 2
                                  then at_index (durations cfg) 0
                                  else at_index (durations cfg) (int (length (durations cfg)) - 1))\<rparr>)
                 [0 ..< length (practiceItems cfg)]) \<and>
         snd (generatePracticeTrials cfg random calls) = calls + (length (practiceItems cfg) - 1) \<and>
         (durations cfg \<noteq> [] \<and> sorted (durations cfg) \<longrightarrow>
            at_index (durations cfg) 0 = Some (Min (set (durations cfg))) \<and>
            at_index (durations cfg) (int (length (durations cfg)) - 1) =
              Some (Max (set (durations cfg))))"
proof -
  have perm: "mset (fst (generatePracticeTrials cfg random calls)) = mset (practice_assigned cfg)"
    unfolding generatePracticeTrials_def using assms by (rule shuffle_mset)
  have "length (practice_assigned cfg) = length (practiceItems cfg)"
    by (simp add: practice_assigned_def Let_def)
  then have draws: "snd (generatePracticeTrials cfg random calls) = calls + (length (practiceItems cfg) - 1)"
    by (simp add: generatePracticeTrials_def shuffle_calls)
  from perm draws at_index_first_sorted [of "durations cfg"] show ?thesis
    by (simp only: practice_assigned_index) blast
qed

theorem generatePracticeTrials_halves_witness:
  "unit_interval midpoint_random \<and> durations CONFIG \<noteq> [] \<and> sorted (durations CONFIG) \<and>
   mset (fst (generatePracticeTrials CONFIG midpoint_random 0)) =
     mset (map (\<lambda>i. \<lparr>stimulus = stimulus (practiceItems CONFIG ! i),
                lexicality = lexicality (practiceItems CONFIG ! i),
                duration = (if i < (length (practiceItems CONFIG) + 1) div 2
                            then at_index (durations CONFIG) 0
                            else at_index (durations CONFIG) (int (length (durations CONFIG)) - 1))\<rparr>)
           [0 ..< length (practiceItems CONFIG)]) \<and>
   snd (generatePracticeTrials CONFIG midpoint_random 0) = 0 + (length (practiceItems CONFIG) - 1) \<and>
   at_index (durations CONFIG) 0 = Some (Min (set (durations CONFIG))) \<and>
   at_index (durations CONFIG) (int (length (durations CONFIG)) - 1) = Some (Max (set (durations CONFIG)))"
proof -
  have asc: "durations CONFIG \<noteq> [] \<and> sorted (durations CONFIG)"
    by (simp add: CONFIG_def)
  from generatePracticeTrials_halves [OF unit_interval_midpoint, of CONFIG 0] asc unit_interval_midpoint
  show ?thesis by blast
qed

text \<open>
  Claim C9 as stated fails: with the duration levels listed as \<open>[200, 40]\<close>, the items of the first half of the
  practice catalog (\<open>finger\<close>, \<open>church\<close>, \<open>carrot\<close>) are shown for 200 ms, the longest
  level, and those of the second half for 40 ms, the shortest.
\<close>

theorem generatePracticeTrials_descending_levels:
  "map stimulus (fst (generatePracticeTrials descending_config midpoint_random 0)) =
     [''finger'', ''waten'', ''church'', ''pamer'', ''carrot'', ''hamen''] \<and>
   map duration (fst (generatePracticeTrials descending_config midpoint_random 0)) =
     [Some 200, Some 40, Some 200, Some 40, Some 200, Some 40] \<and>
   map stimulus (practiceItems descending_config) =
     [''finger'', ''church'', ''carrot'', ''hamen'', ''pamer'', ''waten''] \<and>
   Min (set (durations descending_config)) = 40 \<and> Max (set (durations descending_config)) = 200"
proof -
  have "map stimulus (fst (generatePracticeTrials descending_config midpoint_random 0)) =
     [''finger'', ''waten'', ''church'', ''pamer'', ''carrot'', ''hamen'']"
    by code_simp
  moreover have "map duration (fst (generatePracticeTrials descending_config midpoint_random 0)) =
     [Some 200, Some 40, Some 200, Some 40, Some 200, Some 40]"
    by code_simp
  moreover have "map stimulus (practiceItems descending_config) =
     [''finger'', ''church'', ''carrot'', ''hamen'', ''pamer'', ''waten'']"
    by (simp add: descending_config_def CONFIG_def)
  moreover have "Min (set (durations descending_config)) = 40 \<and> Max (set (durations descending_config)) = 200"
    by (simp add: descending_config_def CONFIG_def)
  ultimately show ?thesis by blast
qed


section \<open>The response window\<close>

lemma dispatch_settled: "dispatch cfg (settled now r) e = settled now r"
  by (cases e; cases "fst e") (auto simp: settled_def)

lemma foldl_dispatch_settled: "foldl (dispatch cfg) (settled now r) es = settled now r"
  by (induction es) (simp_all add: dispatch_settled)

lemma dispatch_enter_end:
  assumes "ends_window cfg e"
  shows "dispatch cfg (waitForResponse_enter now tm) e = settled now (window_outcome cfg now e)"
proof (cases e)
  case (Pair ev t)
  with assms show ?thesis
    by (cases ev)
       (auto simp: ends_window_def waitForResponse_enter_def settled_def window_outcome_def
          onKey_def onTapWord_def onTapNonword_def onTimeout_def respond_def cleanup_def
          bound_key_def Let_def split: if_splits)
qed

lemma dispatch_enter_other:
  assumes "\<not> ends_window cfg e"
  shows "dispatch cfg (waitForResponse_enter now tm) e = waitForResponse_enter now tm"
proof (cases e)
  case (Pair ev t)
  with assms show ?thesis
    by (cases ev) (auto simp: ends_window_def waitForResponse_enter_def onKey_def Let_def split: if_splits)
qed

lemma response_window_find:
  "response_window cfg now tm events =
     (case List.find (ends_window cfg) events of
        None \<Rightarrow> waitForResponse_enter now tm
      | Some e \<Rightarrow> settled now (window_outcome cfg now e))"
  unfolding response_window_def
  by (induction events)
     (simp_all add: dispatch_enter_end dispatch_enter_other foldl_dispatch_settled)


lemma settled_torn_down: "torn_down (settled now r)"
  by (simp add: torn_down_def settled_def)

lemma waitForResponse_find:
  "waitForResponse cfg now tm events =
     map_option (window_outcome cfg now) (List.find (ends_window cfg) events)"
  by (simp add: waitForResponse_def response_window_find waitForResponse_enter_def settled_def
      split: option.splits)

lemma find_append_Some: "List.find P xs = Some x \<Longrightarrow> List.find P (xs @ ys) = Some x"
  by (induction xs) (auto split: if_splits)

text \<open>
  Claim C6. For every event sequence of one response window: \<^verbatim>\<open>resolve\<close> is called at
  most once. While no accepted input and no timer expiry has occurred the collector is as
  it was on entry, still pending. From the first such event on, \<^verbatim>\<open>resolve\<close> has been
  called exactly once, with the outcome of that event; the flag is set, the class, the
  three listeners and the timer are gone; and whatever events follow leave the
  collector unchanged. The outcome of a timer expiry is \<^verbatim>\<open>{key: null, rt: null}\<close>, the
  outcome of an accepted input is its bound key and the time since entry. A handler that
  still ran after the resolution would change nothing, because of the \<^verbatim>\<open>resolved\<close> flag.
\<close>

theorem waitForResponse_resolves_once:
  "length (resolveCalls (response_window cfg now tm events)) \<le> 1 \<and>
   (case List.find (ends_window cfg) events of
      None \<Rightarrow>
        response_window cfg now tm events = waitForResponse_enter now tm \<and>
        waitForResponse cfg now tm events = None
    | Some e \<Rightarrow>
        resolveCalls (response_window cfg now tm events) = [window_outcome cfg now e] \<and>
        waitForResponse cfg now tm events = Some (window_outcome cfg now e) \<and>
        torn_down (response_window cfg now tm events) \<and>
        (\<forall>later. response_window cfg now tm (events @ later) =
                  response_window cfg now tm events)) \<and>
   (\<forall>t. window_outcome cfg now (TimerFired, t) = \<lparr>resp_key = None, resp_rt = None\<rparr>) \<and>
   (\<forall>ev t d. decision_of cfg ev = Some d \<longrightarrow>
      window_outcome cfg now (ev, t) = \<lparr>resp_key = Some (bound_key cfg d), resp_rt = Some (t - now)\<rparr>) \<and>
   (\<forall>r k t. respond k t (settled now r) = settled now r \<and> onTimeout (settled now r) = settled now r)"
proof -
  have guard: "\<forall>r k t. respond k t (settled now r) = settled now r \<and>
      onTimeout (settled now r) = settled now r"
    by (simp add: respond_def onTimeout_def settled_def)
  have once: "length (resolveCalls (response_window cfg now tm events)) \<le> 1"
    by (simp add: response_window_find waitForResponse_enter_def settled_def split: option.splits)
  have pending: "response_window cfg now tm events = waitForResponse_enter now tm \<and>
      waitForResponse cfg now tm events = None"
    if "List.find (ends_window cfg) events = None"
    using that by (simp add: response_window_find waitForResponse_find)
  have fin: "resolveCalls (response_window cfg now tm events) = [window_outcome cfg now e] \<and>
      waitForResponse cfg now tm events = Some (window_outcome cfg now e) \<and>
      torn_down (response_window cfg now tm events) \<and>
      (\<forall>later. response_window cfg now tm (events @ later) = response_window cfg now tm events)"
    if "List.find (ends_window cfg) events = Some e" for e
    using that find_append_Some [OF that]
    by (simp add: response_window_find waitForResponse_find settled_torn_down) (simp add: settled_def)
  have timeout: "\<forall>t. window_outcome cfg now (TimerFired, t) = \<lparr>resp_key = None, resp_rt = None\<rparr>"
    by (simp add: window_outcome_def)
  have input: "\<forall>ev t d. decision_of cfg ev = Some d \<longrightarrow>
      window_outcome cfg now (ev, t) = \<lparr>resp_key = Some (bound_key cfg d), resp_rt = Some (t - now)\<rparr>"
    by (simp add: window_outcome_def)
  from pending fin have "case List.find (ends_window cfg) events of
      None \<Rightarrow>
        response_window cfg now tm events = waitForResponse_enter now tm \<and>
        waitForResponse cfg now tm events = None
    | Some e \<Rightarrow>
        resolveCalls (response_window cfg now tm events) = [window_outcome cfg now e] \<and>
        waitForResponse cfg now tm events = Some (window_outcome cfg now e) \<and>
        torn_down (response_window cfg now tm events) \<and>
        (\<forall>later. response_window cfg now tm (events @ later) =
                  response_window cfg now tm events)"
    by (cases "List.find (ends_window cfg) events") simp_all
  with once timeout input guard show ?thesis by blast
qed

theorem waitForResponse_resolves_once_witness:
  "List.find (ends_window CONFIG) [(KeyDown ''x'', 1100), (KeyDown ''F'', 1350), (KeyDown ''j'', 1400), (TimerFired, 3000)]
     = Some (KeyDown ''F'', 1350) \<and>
   resolveCalls (response_window CONFIG 1000 2000
     [(KeyDown ''x'', 1100), (KeyDown ''F'', 1350), (KeyDown ''j'', 1400), (TimerFired, 3000)])
     = [\<lparr>resp_key = Some ''f'', resp_rt = Some 350\<rparr>] \<and>
   torn_down (response_window CONFIG 1000 2000
     [(KeyDown ''x'', 1100), (KeyDown ''F'', 1350), (KeyDown ''j'', 1400), (TimerFired, 3000)]) \<and>
   List.find (ends_window CONFIG) [(KeyDown ''x'', 1100), (TimerFired, 3000), (KeyDown ''f'', 3350)]
     = Some (TimerFired, 3000) \<and>
   waitForResponse CONFIG 1000 2000 [(KeyDown ''x'', 1100), (TimerFired, 3000), (KeyDown ''f'', 3350)]
     = Some \<lparr>resp_key = None, resp_rt = None\<rparr>"
proof -
  let ?a = "[(KeyDown ''x'', 1100), (KeyDown ''F'', 1350), (KeyDown ''j'', 1400), (TimerFired, 3000 :: rat)]"
  let ?b = "[(KeyDown ''x'', 1100), (TimerFired, 3000), (KeyDown ''f'', 3350 :: rat)]"
  have fa: "List.find (ends_window CONFIG) ?a = Some (KeyDown ''F'', 1350)" by code_simp
  have fb: "List.find (ends_window CONFIG) ?b = Some (TimerFired, 3000)" by code_simp
  have oa: "window_outcome CONFIG 1000 (KeyDown ''F'', 1350) = \<lparr>resp_key = Some ''f'', resp_rt = Some 350\<rparr>"
    by code_simp
  have ob: "window_outcome CONFIG 1000 (TimerFired, 3000) = \<lparr>resp_key = None, resp_rt = None\<rparr>"
    by code_simp
  from waitForResponse_resolves_once [of CONFIG 1000 2000 ?a] fa oa
  have a: "resolveCalls (response_window CONFIG 1000 2000 ?a) = [\<lparr>resp_key = Some ''f'', resp_rt = Some 350\<rparr>] \<and>
      torn_down (response_window CONFIG 1000 2000 ?a)"
    by simp
  from waitForResponse_resolves_once [of CONFIG 1000 2000 ?b] fb ob
  have b: "waitForResponse CONFIG 1000 2000 ?b = Some \<lparr>resp_key = None, resp_rt = None\<rparr>"
    by simp
  from fa fb a b show ?thesis by blast
qed


section \<open>The trial runner\<close>

lemma toFixed6_nonempty: "toFixed6 x \<noteq> []"
  by (simp add: toFixed6_def Let_def)

lemma applyFormParameters_keys:
  "(keyWord (applyFormParameters f CONFIG), keyNonword (applyFormParameters f CONFIG)) =
     (if param_swap f then (''j'', ''f'') else (''f'', ''j''))"
  by (simp add: applyFormParameters_def CONFIG_def Let_def)

lemma applyFormParameters_distinct_keys:
  "keyWord cfg \<noteq> keyNonword cfg \<Longrightarrow>
   keyWord (applyFormParameters f cfg) \<noteq> keyNonword (applyFormParameters f cfg)"
  by (simp add: applyFormParameters_def Let_def)

lemma CONFIG_distinct_keys: "keyWord CONFIG \<noteq> keyNonword CONFIG"
  by (simp add: CONFIG_def)

lemma runTrial_find:
  "runTrial cfg trialInfo now events =
     map_option (\<lambda>e. score cfg trialInfo (window_outcome cfg now e)) (List.find (ends_window cfg) events)"
  by (simp add: runTrial_def waitForResponse_find option.map_comp comp_def)

lemma score_timeout:
  "resp_key r = None \<Longrightarrow>
   accuracy (snd (score cfg trialInfo r)) = 0 \<and> response (snd (score cfg trialInfo r)) = Blank \<and>
   RT (snd (score cfg trialInfo r)) = []"
  by (simp add: score_def Let_def)

lemma score_key:
  "resp_key r = Some k \<Longrightarrow>
   accuracy (snd (score cfg trialInfo r)) =
     (if k = (if lexicality trialInfo = Word then keyWord cfg else keyNonword cfg) then 1 else 0) \<and>
   response (snd (score cfg trialInfo r)) = (if k = keyWord cfg then Code 1 else Code 0) \<and>
   RT (snd (score cfg trialInfo r)) \<noteq> []"
  by (simp add: score_def Let_def toFixed6_nonempty)

lemma score_fields:
  fixes cfg trialInfo now e
  assumes keys: "keyWord cfg \<noteq> keyNonword cfg"
  defines "res \<equiv> snd (score cfg trialInfo (window_outcome cfg now e))"
  shows "accuracy res = (if decision_of cfg (fst e) = Some (implied_decision (lexicality trialInfo)) then 1 else 0)"
    and "response res = (case decision_of cfg (fst e) of None \<Rightarrow> Blank
                          | Some DecideWord \<Rightarrow> Code 1 | Some DecideNonword \<Rightarrow> Code 0)"
    and "RT res = [] \<longleftrightarrow> decision_of cfg (fst e) = None"
proof -
  show "accuracy res = (if decision_of cfg (fst e) = Some (implied_decision (lexicality trialInfo)) then 1 else 0)"
  proof (cases "decision_of cfg (fst e)")
    case None
    then have "resp_key (window_outcome cfg now e) = None" by (simp add: window_outcome_def)
    from score_timeout [OF this, of cfg trialInfo] None show ?thesis by (simp add: res_def)
  next
    case (Some d)
    then have "resp_key (window_outcome cfg now e) = Some (bound_key cfg d)"
      by (simp add: window_outcome_def)
    from score_key [OF this, of cfg trialInfo] Some keys show ?thesis
      by (cases d; cases "lexicality trialInfo")
         (simp_all add: res_def bound_key_def implied_decision_def)
  qed
  show "response res = (case decision_of cfg (fst e) of None \<Rightarrow> Blank
                          | Some DecideWord \<Rightarrow> Code 1 | Some DecideNonword \<Rightarrow> Code 0)"
  proof (cases "decision_of cfg (fst e)")
    case None
    then have "resp_key (window_outcome cfg now e) = None" by (simp add: window_outcome_def)
    from score_timeout [OF this, of cfg trialInfo] None show ?thesis by (simp add: res_def)
  next
    case (Some d)
    then have "resp_key (window_outcome cfg now e) = Some (bound_key cfg d)"
      by (simp add: window_outcome_def)
    from score_key [OF this, of cfg trialInfo] Some keys show ?thesis
      by (cases d) (simp_all add: res_def bound_key_def)
  qed
  show "RT res = [] \<longleftrightarrow> decision_of cfg (fst e) = None"
  proof (cases "decision_of cfg (fst e)")
    case None
    then have "resp_key (window_outcome cfg now e) = None" by (simp add: window_outcome_def)
    from score_timeout [OF this, of cfg trialInfo] None show ?thesis by (simp add: res_def)
  next
    case (Some d)
    then have "resp_key (window_outcome cfg now e) = Some (bound_key cfg d)"
      by (simp add: window_outcome_def)
    from score_key [OF this, of cfg trialInfo] Some show ?thesis by (simp add: res_def)
  qed
qed


text \<open>
  Claim C3. With the two decisions bound to different keys, a trial whose response window
  has ended returns a result whose accuracy is 1 exactly when the event that ended the
  window was an accepted input standing for the decision the lexicality implies (word for
  a word, nonword for a pseudoword), and is 0 otherwise (so also after a timeout); its
  RT field is non-empty exactly when that event was an accepted input, not the timeout.
\<close>

theorem runTrial_accuracy_and_RT:
  assumes "keyWord cfg \<noteq> keyNonword cfg"
    and "List.find (ends_window cfg) events = Some e"
  shows "\<exists>fb res. runTrial cfg trialInfo now events = Some (fb, res) \<and>
           (accuracy res = 1 \<longleftrightarrow>
              decision_of cfg (fst e) = Some (implied_decision (lexicality trialInfo))) \<and>
           (accuracy res = 1 \<or> accuracy res = 0) \<and>
           (RT res \<noteq> [] \<longleftrightarrow> decision_of cfg (fst e) \<noteq> None)"
proof -
  let ?p = "score cfg trialInfo (window_outcome cfg now e)"
  have run: "runTrial cfg trialInfo now events = Some (fst ?p, snd ?p)"
    by (simp add: runTrial_find assms(2))
  note f = score_fields [OF assms(1), of trialInfo now e]
  have "accuracy (snd ?p) = 1 \<longleftrightarrow>
      decision_of cfg (fst e) = Some (implied_decision (lexicality trialInfo))"
    by (simp add: f(1))
  moreover have "accuracy (snd ?p) = 1 \<or> accuracy (snd ?p) = 0"
    by (simp add: f(1))
  moreover have "RT (snd ?p) \<noteq> [] \<longleftrightarrow> decision_of cfg (fst e) \<noteq> None"
    by (simp add: f(3))
  ultimately show ?thesis using run by blast
qed

theorem runTrial_accuracy_and_RT_witness:
  "keyWord CONFIG \<noteq> keyNonword CONFIG \<and>
   List.find (ends_window CONFIG) [(KeyDown ''x'', 1100), (KeyDown ''F'', 1350), (TimerFired, 3000)]
     = Some (KeyDown ''F'', 1350) \<and>
   (\<exists>fb res. runTrial CONFIG tible_40 1000 [(KeyDown ''x'', 1100), (KeyDown ''F'', 1350), (TimerFired, 3000)]
        = Some (fb, res) \<and> accuracy res = 0 \<and> RT res \<noteq> [])"
proof -
  let ?ev = "[(KeyDown ''x'', 1100), (KeyDown ''F'', 1350), (TimerFired, 3000 :: rat)]"
  have fnd: "List.find (ends_window CONFIG) ?ev = Some (KeyDown ''F'', 1350)" by code_simp
  have dec: "decision_of CONFIG (KeyDown ''F'') = Some DecideWord" by code_simp
  have imp: "implied_decision (lexicality tible_40) = DecideNonword"
    by (simp add: implied_decision_def tible_40_def)
  from runTrial_accuracy_and_RT [OF CONFIG_distinct_keys fnd, of tible_40 1000]
  obtain fb res where r: "runTrial CONFIG tible_40 1000 ?ev = Some (fb, res)"
    and a: "accuracy res = 1 \<longleftrightarrow>
      decision_of CONFIG (fst (KeyDown ''F'', 1350 :: rat)) = Some (implied_decision (lexicality tible_40))"
    and b: "accuracy res = 1 \<or> accuracy res = 0"
    and c: "RT res \<noteq> [] \<longleftrightarrow> decision_of CONFIG (fst (KeyDown ''F'', 1350 :: rat)) \<noteq> None"
    by blast
  from a b dec imp have "accuracy res = 0" by simp
  moreover from c dec have "RT res \<noteq> []" by simp
  ultimately show ?thesis using CONFIG_distinct_keys fnd r by blast
qed

text \<open>
  Claim C10. Whatever the welcome form says about the key swap, once the response window
  of a trial has ended the \<^verbatim>\<open>response\<close> field is 1 exactly when the ending event was an input
  standing for the decision word and 0 exactly when it stood for nonword (and blank after
  a timeout); hence two runs that differ in the key swap only give the same
  \<^verbatim>\<open>response\<close> whenever their windows ended with the same decision.
\<close>

theorem response_field_independent_of_key_swap:
  fixes f :: form
  defines "cfg \<equiv> applyFormParameters (f\<lparr>param_swap := False\<rparr>) CONFIG"
    and "cfg' \<equiv> applyFormParameters (f\<lparr>param_swap := True\<rparr>) CONFIG"
  assumes "List.find (ends_window cfg) events = Some e"
    and "List.find (ends_window cfg') events' = Some e'"
  shows "(\<exists>fb res. runTrial cfg trialInfo now events = Some (fb, res) \<and>
            (response res = Code 1 \<longleftrightarrow> decision_of cfg (fst e) = Some DecideWord) \<and>
            (response res = Code 0 \<longleftrightarrow> decision_of cfg (fst e) = Some DecideNonword) \<and>
            (response res = Blank \<longleftrightarrow> decision_of cfg (fst e) = None)) \<and>
         (\<exists>fb res. runTrial cfg' trialInfo' now' events' = Some (fb, res) \<and>
            (response res = Code 1 \<longleftrightarrow> decision_of cfg' (fst e') = Some DecideWord) \<and>
            (response res = Code 0 \<longleftrightarrow> decision_of cfg' (fst e') = Some DecideNonword) \<and>
            (response res = Blank \<longleftrightarrow> decision_of cfg' (fst e') = None)) \<and>
         (decision_of cfg (fst e) = decision_of cfg' (fst e') \<longrightarrow>
            map_option (\<lambda>p. response (snd p)) (runTrial cfg trialInfo now events) =
            map_option (\<lambda>p. response (snd p)) (runTrial cfg' trialInfo' now' events'))"
proof -
  have keys: "keyWord cfg \<noteq> keyNonword cfg" "keyWord cfg' \<noteq> keyNonword cfg'"
    unfolding cfg_def cfg'_def
    by (rule applyFormParameters_distinct_keys [OF CONFIG_distinct_keys])+
  let ?p = "score cfg trialInfo (window_outcome cfg now e)"
  let ?q = "score cfg' trialInfo' (window_outcome cfg' now' e')"
  have run: "runTrial cfg trialInfo now events = Some (fst ?p, snd ?p)"
    by (simp add: runTrial_find assms(3))
  have run': "runTrial cfg' trialInfo' now' events' = Some (fst ?q, snd ?q)"
    by (simp add: runTrial_find assms(4))
  note rp = score_fields(2) [OF keys(1), of trialInfo now e]
  note rq = score_fields(2) [OF keys(2), of trialInfo' now' e']
  have p: "(response (snd ?p) = Code 1 \<longleftrightarrow> decision_of cfg (fst e) = Some DecideWord) \<and>
      (response (snd ?p) = Code 0 \<longleftrightarrow> decision_of cfg (fst e) = Some DecideNonword) \<and>
      (response (snd ?p) = Blank \<longleftrightarrow> decision_of cfg (fst e) = None)"
    by (simp add: rp split: option.splits decision.splits)
  have q: "(response (snd ?q) = Code 1 \<longleftrightarrow> decision_of cfg' (fst e') = Some DecideWord) \<and>
      (response (snd ?q) = Code 0 \<longleftrightarrow> decision_of cfg' (fst e') = Some DecideNonword) \<and>
      (response (snd ?q) = Blank \<longleftrightarrow> decision_of cfg' (fst e') = None)"
    by (simp add: rq split: option.splits decision.splits)
  have same: "map_option (\<lambda>p. response (snd p)) (runTrial cfg trialInfo now events) =
      map_option (\<lambda>p. response (snd p)) (runTrial cfg' trialInfo' now' events')"
    if "decision_of cfg (fst e) = decision_of cfg' (fst e')"
    using that by (simp add: run run' rp rq)
  have first: "\<exists>fb res. runTrial cfg trialInfo now events = Some (fb, res) \<and>
            (response res = Code 1 \<longleftrightarrow> decision_of cfg (fst e) = Some DecideWord) \<and>
            (response res = Code 0 \<longleftrightarrow> decision_of cfg (fst e) = Some DecideNonword) \<and>
            (response res = Blank \<longleftrightarrow> decision_of cfg (fst e) = None)"
    by (rule exI, rule exI, rule conjI, rule run, rule p)
  have second: "\<exists>fb res. runTrial cfg' trialInfo' now' events' = Some (fb, res) \<and>
            (response res = Code 1 \<longleftrightarrow> decision_of cfg' (fst e') = Some DecideWord) \<and>
            (response res = Code 0 \<longleftrightarrow> decision_of cfg' (fst e') = Some DecideNonword) \<and>
            (response res = Blank \<longleftrightarrow> decision_of cfg' (fst e') = None)"
    by (rule exI, rule exI, rule conjI, rule run', rule q)
  from first second same show ?thesis by (intro conjI impI)
qed

theorem response_field_independent_of_key_swap_witness:
  "List.find (ends_window (applyFormParameters (default_form\<lparr>param_swap := False\<rparr>) CONFIG))
     [(KeyDown ''x'', 1100), (KeyDown ''F'', 1350)] = Some (KeyDown ''F'', 1350) \<and>
   List.find (ends_window (applyFormParameters (default_form\<lparr>param_swap := True\<rparr>) CONFIG))
     [(KeyDown ''j'', 2500), (TimerFired, 4000)] = Some (KeyDown ''j'', 2500) \<and>
   decision_of (applyFormParameters (default_form\<lparr>param_swap := False\<rparr>) CONFIG) (KeyDown ''F'') =
     Some DecideWord \<and>
   decision_of (applyFormParameters (default_form\<lparr>param_swap := True\<rparr>) CONFIG) (KeyDown ''j'') =
     Some DecideWord \<and>
   map_option (\<lambda>p. response (snd p))
     (runTrial (applyFormParameters (default_form\<lparr>param_swap := False\<rparr>) CONFIG) river_40 1000
        [(KeyDown ''x'', 1100), (KeyDown ''F'', 1350)]) =
   map_option (\<lambda>p. response (snd p))
     (runTrial (applyFormParameters (default_form\<lparr>param_swap := True\<rparr>) CONFIG) tible_40 2000
        [(KeyDown ''j'', 2500), (TimerFired, 4000)])"
proof -
  let ?c = "applyFormParameters (default_form\<lparr>param_swap := False\<rparr>) CONFIG"
  let ?c' = "applyFormParameters (default_form\<lparr>param_swap := True\<rparr>) CONFIG"
  have f1: "List.find (ends_window ?c) [(KeyDown ''x'', 1100), (KeyDown ''F'', 1350 :: rat)]
      = Some (KeyDown ''F'', 1350)" by code_simp
  have f2: "List.find (ends_window ?c') [(KeyDown ''j'', 2500), (TimerFired, 4000 :: rat)]
      = Some (KeyDown ''j'', 2500)" by code_simp
  have d1: "decision_of ?c (KeyDown ''F'') = Some DecideWord" by code_simp
  have d2: "decision_of ?c' (KeyDown ''j'') = Some DecideWord" by code_simp
  from response_field_independent_of_key_swap [of default_form _ _ _ _ river_40 1000 tible_40 2000,
      OF f1 f2] d1 d2
  have "map_option (\<lambda>p. response (snd p))
     (runTrial ?c river_40 1000 [(KeyDown ''x'', 1100), (KeyDown ''F'', 1350)]) =
   map_option (\<lambda>p. response (snd p))
     (runTrial ?c' tible_40 2000 [(KeyDown ''j'', 2500), (TimerFired, 4000)])"
    by simp
  with f1 f2 d1 d2 show ?thesis by blast
qed


section \<open>The start of the experiment\<close>

text \<open>
  Claim C8, as the code has it. When the user name is empty after trimming, the start
  aborts: no session document is written and \<^verbatim>\<open>sessionDocId\<close> keeps its value; the run ends
  before any trial is generated or run. By then the shared configuration has been
  overwritten from the form (repetitions, phase durations and, when the box is checked,
  the key swap) and an alert has been shown; nothing else has changed.
\<close>

theorem runExperiment_aborts_without_name:
  assumes "trim (subject_id f) = []"
  shows "runExperiment_start f added s =
           (Aborted, s\<lparr>shared_config := applyFormParameters f (shared_config s),
                         alerts := alerts s @ [''Please enter a username.'']\<rparr>) \<and>
         sessionDocId (snd (runExperiment_start f added s)) = sessionDocId s \<and>
         sessions (snd (runExperiment_start f added s)) = sessions s"
  using assms by (simp add: runExperiment_start_def Let_def)

lemma trim_nameless: "trim (subject_id nameless_form) = []"
  by (simp add: nameless_form_def default_form_def trim_def white_space_def)

theorem runExperiment_aborts_without_name_witness:
  "trim (subject_id nameless_form) = [] \<and>
   fst (runExperiment_start nameless_form (Some ''doc1'') initial_state) = Aborted \<and>
   sessionDocId (snd (runExperiment_start nameless_form (Some ''doc1'') initial_state)) = None \<and>
   sessions (snd (runExperiment_start nameless_form (Some ''doc1'') initial_state)) = []"
proof -
  from runExperiment_aborts_without_name [OF trim_nameless, of "Some ''doc1''" initial_state]
  have "fst (runExperiment_start nameless_form (Some ''doc1'') initial_state) = Aborted"
    and "sessionDocId (snd (runExperiment_start nameless_form (Some ''doc1'') initial_state)) =
           sessionDocId initial_state"
    and "sessions (snd (runExperiment_start nameless_form (Some ''doc1'') initial_state)) =
           sessions initial_state"
    by simp_all
  with trim_nameless show ?thesis by (simp add: initial_state_def)
qed

text \<open>
  Claim C8 as stated fails: a start attempt with a user name of blanks, two repetitions and the key swap checked
  aborts, and leaves the shared configuration with two repetitions and the keys swapped.
\<close>

theorem aborted_start_changes_config:
  "trim (subject_id nameless_form) = [] \<and>
   fst (runExperiment_start nameless_form (Some ''doc1'') initial_state) = Aborted \<and>
   shared_config initial_state = CONFIG \<and>
   nReps CONFIG = 1 \<and> keyWord CONFIG = ''f'' \<and> keyNonword CONFIG = ''j'' \<and>
   nReps (shared_config (snd (runExperiment_start nameless_form (Some ''doc1'') initial_state))) = 2 \<and>
   keyWord (shared_config (snd (runExperiment_start nameless_form (Some ''doc1'') initial_state))) = ''j'' \<and>
   keyNonword (shared_config (snd (runExperiment_start nameless_form (Some ''doc1'') initial_state))) = ''f'' \<and>
   shared_config (snd (runExperiment_start nameless_form (Some ''doc1'') initial_state)) \<noteq>
     shared_config initial_state"
proof -
  have t: "trim (subject_id nameless_form) = []" by (rule trim_nameless)
  have run: "runExperiment_start nameless_form (Some ''doc1'') initial_state =
      (Aborted, initial_state\<lparr>shared_config := applyFormParameters nameless_form CONFIG,
                               alerts := [''Please enter a username.'']\<rparr>)"
    by (simp add: runExperiment_start_def Let_def t) (simp add: initial_state_def)
  have cfg: "nReps (applyFormParameters nameless_form CONFIG) = 2"
    "keyWord (applyFormParameters nameless_form CONFIG) = ''j''"
    "keyNonword (applyFormParameters nameless_form CONFIG) = ''f''"
    by (simp_all add: applyFormParameters_def nameless_form_def default_form_def or_default_def Let_def)
  have c0: "nReps CONFIG = 1" "keyWord CONFIG = ''f''" "keyNonword CONFIG = ''j''"
    by (simp_all add: CONFIG_def)
  have i0: "shared_config initial_state = CONFIG" by (simp add: initial_state_def)
  have changed: "applyFormParameters nameless_form CONFIG \<noteq> CONFIG"
  proof
    assume "applyFormParameters nameless_form CONFIG = CONFIG"
    then have "nReps (applyFormParameters nameless_form CONFIG) = nReps CONFIG" by simp
    with cfg(1) c0(1) show False by simp
  qed
  from t run cfg c0 i0 changed show ?thesis by simp
qed


section \<open>Properties of the phase scheduler\<close>

lemma frame_started:
  "frame d (Some s) ts =
     (case List.find (\<lambda>t. t - s \<ge> d) ts of None \<Rightarrow> None | Some t \<Rightarrow> Some t)"
  by (induction ts) simp_all

lemma showForDuration_find:
  "showForDuration d ts =
     (case ts of [] \<Rightarrow> None | t0 # _ \<Rightarrow> List.find (\<lambda>t. t - t0 \<ge> d) ts)"
  by (cases ts) (auto simp: showForDuration_def frame_started split: option.splits)

text \<open>
  Claim C7. For every requested duration and every sequence of display-refresh timestamps
  (strictly increasing or not), \<open>showForDuration\<close> resolves with the first timestamp whose
  elapsed time since the first frame is at least the requested duration: every earlier
  refresh had a smaller elapsed time, so the phase is never shorter than requested and
  ends on a refresh. It stays pending exactly as long as no refresh has reached the
  requested duration, and it does resolve as soon as one has.
\<close>

theorem showForDuration_first_refresh:
  fixes d :: rat and t0 :: rat and ts :: "rat list"
  defines "rs \<equiv> t0 # ts"
  shows "(showForDuration d rs = None \<longleftrightarrow> (\<forall>u \<in> set rs. u - t0 < d)) \<and>
         ((\<exists>u \<in> set rs. d \<le> u - t0) \<longrightarrow> (\<exists>t. showForDuration d rs = Some t)) \<and>
         (\<forall>t. showForDuration d rs = Some t \<longrightarrow>
            (\<exists>k < length rs. t = rs ! k \<and> d \<le> rs ! k - t0 \<and> (\<forall>i < k. rs ! i - t0 < d)))"
proof -
  have eq: "showForDuration d rs = List.find (\<lambda>t. t - t0 \<ge> d) rs"
    by (simp add: rs_def showForDuration_find)
  have none: "showForDuration d rs = None \<longleftrightarrow> (\<forall>u \<in> set rs. u - t0 < d)"
    unfolding eq by (auto simp: find_None_iff not_le)
  have some: "\<exists>k < length rs. t = rs ! k \<and> d \<le> rs ! k - t0 \<and> (\<forall>i < k. rs ! i - t0 < d)"
    if "showForDuration d rs = Some t" for t
    using that unfolding eq find_Some_iff by (auto simp: not_le)
  have ex: "\<exists>t. showForDuration d rs = Some t" if "\<exists>u \<in> set rs. d \<le> u - t0"
  proof (cases "showForDuration d rs")
    case None
    with none that show ?thesis by (auto simp: not_le [symmetric])
  qed simp
  from none some ex show ?thesis by blast
qed

theorem showForDuration_first_refresh_witness:
  "showForDuration 40 [1000, 10167 / 10, 10334 / 10, 10501 / 10, 10668 / 10] = Some (10501 / 10) \<and>
   (\<exists>k < length [1000, 10167 / 10, 10334 / 10, 10501 / 10, 10668 / 10 :: rat].
      10501 / 10 = [1000, 10167 / 10, 10334 / 10, 10501 / 10, 10668 / 10 :: rat] ! k \<and>
      40 \<le> [1000, 10167 / 10, 10334 / 10, 10501 / 10, 10668 / 10 :: rat] ! k - 1000 \<and>
      (\<forall>i < k. [1000, 10167 / 10, 10334 / 10, 10501 / 10, 10668 / 10 :: rat] ! i - 1000 < 40))"
proof -
  have run: "showForDuration 40 [1000, 10167 / 10, 10334 / 10, 10501 / 10, 10668 / 10]
               = Some (10501 / 10)"
    by (simp add: showForDuration_def)
  with showForDuration_first_refresh [of 40 1000 "[10167 / 10, 10334 / 10, 10501 / 10, 10668 / 10]"]
  show ?thesis by blast
qed


section \<open>The two aggregations\<close>

lemma set_distinct_sorted_durations:
  "set (distinct_sorted_durations results) = duration ` set results"
proof -
  have "set (concat (map (\<lambda>d. case d of None \<Rightarrow> [] | Some k \<Rightarrow> [k]) ds)) = {k. Some k \<in> set ds}"
    for ds :: "int option list"
    by (induction ds) (auto split: option.splits)
  then show ?thesis
    by (auto simp: distinct_sorted_durations_def Let_def image_iff) (metis not_Some_eq)+
qed

lemma cells_computeSummary:
  "cells (computeSummary pf results) (lx, dur) =
     (if dur \<in> duration ` set results
      then Some (stats pf (filter (\<lambda>r. lexicality r = lx \<and> duration r = dur) results))
      else None)"
proof -
  have "lx = Word \<or> lx = Pseudoword" by (cases lx) simp_all
  then show ?thesis
    by (auto simp: computeSummary_def Let_def set_distinct_sorted_durations)
qed

lemma stats_empty: "stats pf [] = \<lparr>cell_acc = Some 0, cell_rt = None, cell_n = 0\<rparr>"
  by (simp add: stats_def)

lemma grand_cell_empty: "grand_cell pf [] = \<lparr>cell_acc = None, cell_rt = None, cell_n = 0\<rparr>"
  by (simp add: grand_cell_def)

lemma grandStats_at_eq:
  "allTrials \<noteq> [] \<Longrightarrow> (lx, d) \<in> set conditions \<Longrightarrow>
   grandStats_at pf allTrials (lx, d) =
     Some (grand_cell pf (filter (\<lambda>t. lexicality t = lx \<and> duration t = Some d)
       (clean_trials pf allTrials)))"
  by (simp add: grandStats_at_def recomputeAll_def Let_def)

lemma clean_trials_RT: "t \<in> set (clean_trials pf allTrials) \<Longrightarrow> RT t \<noteq> []"
  by (auto simp: clean_trials_def split: if_splits)

lemma grand_cell_stats:
  assumes "part \<noteq> []" "\<forall>t \<in> set part. RT t \<noteq> []"
  shows "grand_cell pf part = stats pf part"
proof -
  from assms(2) have "filter (\<lambda>r. accuracy r = 1 \<and> RT r \<noteq> []) part = filter (\<lambda>t. accuracy t = 1) part"
    by (intro filter_cong) auto
  with assms(1) show ?thesis by (simp add: grand_cell_def stats_def Let_def)
qed


lemma parseFloat_fast: "parseFloat_decimal ''0.150000'' = Num (3 / 20)"
  by (simp add: parseFloat_decimal_def Let_def white_space_def is_digit_def digits_value_def)

lemma parseFloat_steady: "parseFloat_decimal ''0.300000'' = Num (3 / 10)"
  by (simp add: parseFloat_decimal_def Let_def white_space_def is_digit_def digits_value_def)

lemma clean_sample:
  "clean_trials parseFloat_decimal [fast_trial, steady_trial, missed_trial] = [steady_trial]"
  by (simp add: clean_trials_def fast_trial_def steady_trial_def missed_trial_def
      parseFloat_fast parseFloat_steady)

lemma grand_sample_40:
  "grandStats_at parseFloat_decimal [fast_trial, steady_trial, missed_trial] (Word, 40) =
     Some \<lparr>cell_acc = Some 1, cell_rt = Some (Num (3 / 10)), cell_n = 1\<rparr>"
proof -
  have c: "(Word, 40) \<in> set conditions" by (simp add: conditions_def)
  have "filter (\<lambda>t. lexicality t = Word \<and> duration t = Some 40) [steady_trial] = [steady_trial]"
    by (simp add: steady_trial_def)
  moreover have "grand_cell parseFloat_decimal [steady_trial] =
      \<lparr>cell_acc = Some 1, cell_rt = Some (Num (3 / 10)), cell_n = 1\<rparr>"
    by (simp add: grand_cell_def Let_def steady_trial_def parseFloat_steady)
  ultimately show ?thesis by (simp add: grandStats_at_eq [OF _ c] clean_sample)
qed

lemma grand_sample_200:
  "grandStats_at parseFloat_decimal [fast_trial, steady_trial, missed_trial] (Word, 200) =
     Some \<lparr>cell_acc = None, cell_rt = None, cell_n = 0\<rparr>"
proof -
  have c: "(Word, 200) \<in> set conditions" by (simp add: conditions_def)
  have "filter (\<lambda>t. lexicality t = Word \<and> duration t = Some 200) [steady_trial] = []"
    by (simp add: steady_trial_def)
  then show ?thesis by (simp add: grandStats_at_eq [OF _ c] clean_sample grand_cell_empty)
qed

lemma summary_sample_40:
  "cells (computeSummary parseFloat_decimal [fast_trial, steady_trial, missed_trial]) (Word, Some 40) =
     Some \<lparr>cell_acc = Some 1, cell_rt = Some (Num (9 / 40)), cell_n = 2\<rparr>"
proof -
  have d: "Some 40 \<in> duration ` set [fast_trial, steady_trial, missed_trial]"
    by (simp add: fast_trial_def)
  have f: "filter (\<lambda>r. lexicality r = Word \<and> duration r = Some 40)
      [fast_trial, steady_trial, missed_trial] = [fast_trial, steady_trial]"
    by (simp add: fast_trial_def steady_trial_def missed_trial_def)
  have "stats parseFloat_decimal [fast_trial, steady_trial] =
      \<lparr>cell_acc = Some 1, cell_rt = Some (Num (9 / 40)), cell_n = 2\<rparr>"
    by (simp add: stats_def Let_def fast_trial_def steady_trial_def parseFloat_fast parseFloat_steady)
  with d f show ?thesis by (simp only: cells_computeSummary if_True)
qed

lemma summary_sample_200:
  "cells (computeSummary parseFloat_decimal [fast_trial, steady_trial, missed_trial]) (Word, Some 200) =
     Some \<lparr>cell_acc = Some 0, cell_rt = None, cell_n = 1\<rparr>"
proof -
  have d: "Some 200 \<in> duration ` set [fast_trial, steady_trial, missed_trial]"
    by (simp add: missed_trial_def)
  have f: "filter (\<lambda>r. lexicality r = Word \<and> duration r = Some 200)
      [fast_trial, steady_trial, missed_trial] = [missed_trial]"
    by (simp add: fast_trial_def steady_trial_def missed_trial_def)
  have "stats parseFloat_decimal [missed_trial] =
      \<lparr>cell_acc = Some 0, cell_rt = None, cell_n = 1\<rparr>"
    by (simp add: stats_def Let_def missed_trial_def)
  with d f show ?thesis by (simp only: cells_computeSummary if_True)
qed

text \<open>
  Claim C1, as the code has it. For every result set and every (lexicality, duration)
  partition without a matching result: the end-of-session summary has a cell for it
  exactly when the duration occurs in the result set, and that cell reports sample size
  0, reaction time undefined and accuracy 0; the live view, once it has a trial at all,
  reports for each of its four conditions without a clean matching trial sample size 0,
  reaction time undefined and accuracy undefined.
\<close>

theorem empty_cell_reports:
  "(filter (\<lambda>r. lexicality r = lx \<and> duration r = dur) results = [] \<longrightarrow>
      cells (computeSummary pf results) (lx, dur) =
        (if dur \<in> duration ` set results
         then Some \<lparr>cell_acc = Some 0, cell_rt = None, cell_n = 0\<rparr> else None)) \<and>
   (filter (\<lambda>t. lexicality t = lx \<and> duration t = Some d) (clean_trials pf allTrials) = [] \<and>
    allTrials \<noteq> [] \<and> (lx, d) \<in> set conditions \<longrightarrow>
      grandStats_at pf allTrials (lx, d) = Some \<lparr>cell_acc = None, cell_rt = None, cell_n = 0\<rparr>)"
  by (simp add: cells_computeSummary stats_empty grandStats_at_eq grand_cell_empty)

theorem empty_cell_reports_witness:
  "filter (\<lambda>r. lexicality r = Pseudoword \<and> duration r = Some 200) [steady_trial, missed_trial] = [] \<and>
   cells (computeSummary parseFloat_decimal [steady_trial, missed_trial]) (Pseudoword, Some 200) =
     Some \<lparr>cell_acc = Some 0, cell_rt = None, cell_n = 0\<rparr> \<and>
   filter (\<lambda>t. lexicality t = Word \<and> duration t = Some 200)
     (clean_trials parseFloat_decimal [steady_trial, missed_trial]) = [] \<and>
   [steady_trial, missed_trial] \<noteq> [] \<and> (Word, 200) \<in> set conditions \<and>
   grandStats_at parseFloat_decimal [steady_trial, missed_trial] (Word, 200) =
     Some \<lparr>cell_acc = None, cell_rt = None, cell_n = 0\<rparr>"
proof -
  have e1: "filter (\<lambda>r. lexicality r = Pseudoword \<and> duration r = Some 200) [steady_trial, missed_trial] = []"
    by (simp add: steady_trial_def missed_trial_def)
  have e2: "filter (\<lambda>t. lexicality t = Word \<and> duration t = Some 200)
      (clean_trials parseFloat_decimal [steady_trial, missed_trial]) = []"
    by (simp add: clean_trials_def steady_trial_def missed_trial_def)
  have c: "(Word, 200) \<in> set conditions" by (simp add: conditions_def)
  have d: "Some 200 \<in> duration ` set [steady_trial, missed_trial]"
    by (simp add: missed_trial_def)
  from empty_cell_reports [of Pseudoword "Some 200" "[steady_trial, missed_trial]" parseFloat_decimal] e1 d
  have s: "cells (computeSummary parseFloat_decimal [steady_trial, missed_trial]) (Pseudoword, Some 200) =
     Some \<lparr>cell_acc = Some 0, cell_rt = None, cell_n = 0\<rparr>"
    by simp
  from empty_cell_reports [of Word _ _ parseFloat_decimal 200 "[steady_trial, missed_trial]"] e2 c
  have g: "grandStats_at parseFloat_decimal [steady_trial, missed_trial] (Word, 200) =
     Some \<lparr>cell_acc = None, cell_rt = None, cell_n = 0\<rparr>"
    by simp
  from e1 e2 c s g show ?thesis by simp
qed

text \<open>
  Claim C1 as stated fails: in a session with word trials only, the end-of-session summary reports for the cell of
  the pseudowords at 40 ms, which no result matches, the accuracy 0.
\<close>

theorem summary_empty_cell_accuracy_zero:
  "map lexicality [steady_trial, missed_trial] = [Word, Word] \<and>
   cells (computeSummary parseFloat_decimal [steady_trial, missed_trial]) (Pseudoword, Some 40) =
     Some \<lparr>cell_acc = Some 0, cell_rt = None, cell_n = 0\<rparr>"
proof -
  have words: "map lexicality [steady_trial, missed_trial] = [Word, Word]"
    by (simp add: steady_trial_def missed_trial_def)
  have "filter (\<lambda>r. lexicality r = Pseudoword \<and> duration r = Some 40) [steady_trial, missed_trial] = []"
    by (simp add: steady_trial_def missed_trial_def)
  moreover have "Some 40 \<in> duration ` set [steady_trial, missed_trial]"
    by (simp add: steady_trial_def)
  ultimately have "cells (computeSummary parseFloat_decimal [steady_trial, missed_trial]) (Pseudoword, Some 40) =
     Some \<lparr>cell_acc = Some 0, cell_rt = None, cell_n = 0\<rparr>"
    by (simp only: cells_computeSummary if_True stats_empty)
  with words show ?thesis by blast
qed

text \<open>
  Claim C2, as the code has it. The live view first drops every trial whose reaction time
  is missing, not a number, below 0.2 s or above 2.0 s. For each of its four conditions
  with at least one clean trial, its cell is the cell the end-of-session aggregation
  computes from the clean trials: the same sample size, mean accuracy and mean reaction
  time of the accurate trials. So the two agree on such a cell when every trial of the
  result set is clean.
\<close>

theorem live_view_is_summary_of_clean_trials:
  assumes "(lx, d) \<in> set conditions"
    and "filter (\<lambda>t. lexicality t = lx \<and> duration t = Some d) (clean_trials pf allTrials) \<noteq> []"
  shows "grandStats_at pf allTrials (lx, d) =
           cells (computeSummary pf (clean_trials pf allTrials)) (lx, Some d) \<and>
         grandStats_at pf allTrials (lx, d) \<noteq> None \<and>
         (clean_trials pf allTrials = allTrials \<longrightarrow>
            grandStats_at pf allTrials (lx, d) = cells (computeSummary pf allTrials) (lx, Some d))"
proof -
  let ?clean = "clean_trials pf allTrials"
  let ?part = "filter (\<lambda>t. lexicality t = lx \<and> duration t = Some d) ?clean"
  from assms(2) obtain t where t: "t \<in> set ?part" by (cases ?part) auto
  then have tc: "t \<in> set ?clean" and td: "duration t = Some d" by simp_all
  from tc have "t \<in> set allTrials" by (simp add: clean_trials_def)
  then have ne: "allTrials \<noteq> []" by auto
  have rts: "\<forall>t \<in> set ?part. RT t \<noteq> []" by (auto dest: clean_trials_RT)
  have dash: "grandStats_at pf allTrials (lx, d) = Some (stats pf ?part)"
    by (simp only: grandStats_at_eq [OF ne assms(1)] grand_cell_stats [OF assms(2) rts])
  have "Some d \<in> duration ` set ?clean" using tc td by (metis image_eqI)
  then have summ: "cells (computeSummary pf ?clean) (lx, Some d) = Some (stats pf ?part)"
    by (simp add: cells_computeSummary)
  have same: "grandStats_at pf allTrials (lx, d) = cells (computeSummary pf ?clean) (lx, Some d)"
    by (simp only: dash summ)
  have some: "grandStats_at pf allTrials (lx, d) \<noteq> None" by (simp add: dash)
  have all_clean: "grandStats_at pf allTrials (lx, d) = cells (computeSummary pf allTrials) (lx, Some d)"
    if "?clean = allTrials"
    using same by (simp only: that)
  from same some all_clean show ?thesis by blast
qed

theorem live_view_is_summary_of_clean_trials_witness:
  "(Word, 40) \<in> set conditions \<and>
   filter (\<lambda>t. lexicality t = Word \<and> duration t = Some 40)
     (clean_trials parseFloat_decimal [fast_trial, steady_trial, missed_trial]) \<noteq> [] \<and>
   grandStats_at parseFloat_decimal [fast_trial, steady_trial, missed_trial] (Word, 40) =
     cells (computeSummary parseFloat_decimal
       (clean_trials parseFloat_decimal [fast_trial, steady_trial, missed_trial])) (Word, Some 40) \<and>
   grandStats_at parseFloat_decimal [fast_trial, steady_trial, missed_trial] (Word, 40) \<noteq> None"
proof -
  have c: "(Word, 40) \<in> set conditions" by (simp add: conditions_def)
  note cl = clean_sample
  have ne: "filter (\<lambda>t. lexicality t = Word \<and> duration t = Some 40)
     (clean_trials parseFloat_decimal [fast_trial, steady_trial, missed_trial]) \<noteq> []"
    by (simp only: cl) (simp add: steady_trial_def)
  from live_view_is_summary_of_clean_trials [OF c ne] c ne show ?thesis by blast
qed

text \<open>
  Claim C2 as stated fails: on the results \<open>fast_trial\<close> (correct after 0.15 s), \<open>steady_trial\<close> (correct after 0.3 s)
  and \<open>missed_trial\<close> (no answer), the end-of-session summary counts two trials in the cell
  of the words at 40 ms with a mean reaction time of 0.225 s, the live view one trial
  with 0.3 s; in the cell of the words at 200 ms the summary counts one trial with
  accuracy 0, the live view none.
\<close>

theorem summary_and_live_view_differ:
  "cells (computeSummary parseFloat_decimal [fast_trial, steady_trial, missed_trial]) (Word, Some 40) =
     Some \<lparr>cell_acc = Some 1, cell_rt = Some (Num (9 / 40)), cell_n = 2\<rparr> \<and>
   grandStats_at parseFloat_decimal [fast_trial, steady_trial, missed_trial] (Word, 40) =
     Some \<lparr>cell_acc = Some 1, cell_rt = Some (Num (3 / 10)), cell_n = 1\<rparr> \<and>
   cells (computeSummary parseFloat_decimal [fast_trial, steady_trial, missed_trial]) (Word, Some 200) =
     Some \<lparr>cell_acc = Some 0, cell_rt = None, cell_n = 1\<rparr> \<and>
   grandStats_at parseFloat_decimal [fast_trial, steady_trial, missed_trial] (Word, 200) =
     Some \<lparr>cell_acc = None, cell_rt = None, cell_n = 0\<rparr>"
proof -
  have "cells (computeSummary parseFloat_decimal [fast_trial, steady_trial, missed_trial]) (Word, Some 40) =
     Some \<lparr>cell_acc = Some 1, cell_rt = Some (Num (9 / 40)), cell_n = 2\<rparr>"
    by (rule summary_sample_40)
  moreover have "grandStats_at parseFloat_decimal [fast_trial, steady_trial, missed_trial] (Word, 40) =
     Some \<lparr>cell_acc = Some 1, cell_rt = Some (Num (3 / 10)), cell_n = 1\<rparr>"
    by (rule grand_sample_40)
  moreover have "cells (computeSummary parseFloat_decimal [fast_trial, steady_trial, missed_trial]) (Word, Some 200) =
     Some \<lparr>cell_acc = Some 0, cell_rt = None, cell_n = 1\<rparr>"
    by (rule summary_sample_200)
  moreover have "grandStats_at parseFloat_decimal [fast_trial, steady_trial, missed_trial] (Word, 200) =
     Some \<lparr>cell_acc = None, cell_rt = None, cell_n = 0\<rparr>"
    by (rule grand_sample_200)
  ultimately show ?thesis by blast
qed


end
